theory Spec2Isabelle
  imports Complex_Main "HOL-Library.Sublist"
begin

section \<open>JavaScript strings\<close>

text \<open>
  A JavaScript string is a sequence of UTF-16 code units; \<open>line[i]\<close>, \<open>slice\<close>,
  \<open>includes\<close> and \<open>trim\<close> all work on code units. A code unit is modelled as a natural
  number (below 65536 for every string the page can receive); no function below does
  arithmetic on a code unit other than the ASCII case shift and the value of a digit.
  \<open>ascii\<close> writes an ASCII literal; the Korean literals of the page are written out as
  code units.
\<close>

type_synonym jsstring = "nat list"

definition ascii :: "string \<Rightarrow> jsstring" where
  "ascii = map of_char"

text \<open>
  \<open>String.prototype.trim\<close> removes WhiteSpace and LineTerminator code points from both
  ends: TAB, LF, VT, FF, CR, SP, NBSP, U+1680, U+2000 to U+200A, U+2028, U+2029, U+202F,
  U+205F, U+3000 and U+FEFF.
\<close>

definition isWhiteSpace :: "nat \<Rightarrow> bool" where
  "isWhiteSpace c =
     (c = 9 \<or> c = 10 \<or> c = 11 \<or> c = 12 \<or> c = 13 \<or> c = 32 \<or> c = 160 \<or> c = 5760 \<or>
      (8192 \<le> c \<and> c \<le> 8202) \<or> c = 8232 \<or> c = 8233 \<or> c = 8239 \<or> c = 8287 \<or>
      c = 12288 \<or> c = 65279)"

definition trim :: "jsstring \<Rightarrow> jsstring" where
  "trim s = rev (dropWhile isWhiteSpace (rev (dropWhile isWhiteSpace s)))"

text \<open>
  \<open>toLowerCase\<close>, one code unit at a time. ASCII capitals are shifted; U+212A (Kelvin
  sign) becomes \<open>k\<close> and U+0130 becomes \<open>i\<close> followed by U+0307, the only two other code
  points whose lower case contains an ASCII letter. Every other code unit is kept: this
  is exact for ASCII and for scripts without case (Hangul among them); the capitals of
  other scripts, which JavaScript maps to letters outside ASCII and outside Hangul, are
  left as they are.
\<close>

definition lowerUnit :: "nat \<Rightarrow> jsstring" where
  "lowerUnit c =
     (if 65 \<le> c \<and> c \<le> 90 then [c + 32]
      else if c = 8490 then [107]
      else if c = 304 then [105, 775]
      else [c])"

definition toLowerCase :: "jsstring \<Rightarrow> jsstring" where
  "toLowerCase s = concat (map lowerUnit s)"

text \<open>\<open>s.includes(w)\<close>: \<open>w\<close> occurs in \<open>s\<close> at some position.\<close>

fun includes_str :: "jsstring \<Rightarrow> jsstring \<Rightarrow> bool" where
  "includes_str [] w = (w = [])"
| "includes_str (c # cs) w = (prefix w (c # cs) \<or> includes_str cs w)"

text \<open>\<open>text.split(/\r?\n/)\<close>: cut at every LF and at every CR LF pair.\<close>

fun splitLines :: "jsstring \<Rightarrow> jsstring \<Rightarrow> jsstring list" where
  "splitLines [] cur = [cur]"
| "splitLines (c # cs) cur =
     (if c = 10 then cur # splitLines cs []
      else if c = 13 \<and> cs \<noteq> [] \<and> hd cs = 10 then cur # splitLines (tl cs) []
      else splitLines cs (cur @ [c]))"

section \<open>JavaScript numbers\<close>

text \<open>
  A \<open>number\<close> is a finite value, \<open>Infinity\<close>, \<open>-Infinity\<close> or \<open>NaN\<close>. The range of a
  double is modelled (a result of magnitude at least \<open>2^1024 - 2^970\<close> is infinite, one
  of magnitude at most \<open>2^-1075\<close> is zero); the rounding of the mantissa and the sign of
  zero are not: inside the range a finite result is the exact real.
\<close>

datatype number = Fin real | PInf | NInf | NaN

definition overflowBound :: real where
  "overflowBound = 2 ^ 1024 - 2 ^ 970"

definition underflowBound :: real where
  "underflowBound = 1 / 2 ^ 1075"

definition roundRange :: "real \<Rightarrow> number" where
  "roundRange x =
     (if overflowBound \<le> x then PInf
      else if x \<le> - overflowBound then NInf
      else if \<bar>x\<bar> \<le> underflowBound then Fin 0
      else Fin x)"

fun isFinite :: "number \<Rightarrow> bool" where
  "isFinite (Fin x) = True"
| "isFinite PInf = False"
| "isFinite NInf = False"
| "isFinite NaN = False"

fun num_neg :: "number \<Rightarrow> number" where
  "num_neg (Fin x) = Fin (- x)"
| "num_neg PInf = NInf"
| "num_neg NInf = PInf"
| "num_neg NaN = NaN"

fun num_add :: "number \<Rightarrow> number \<Rightarrow> number" where
  "num_add NaN y = NaN"
| "num_add x NaN = NaN"
| "num_add (Fin a) (Fin b) = roundRange (a + b)"
| "num_add (Fin a) y = y"
| "num_add x (Fin b) = x"
| "num_add PInf PInf = PInf"
| "num_add NInf NInf = NInf"
| "num_add PInf NInf = NaN"
| "num_add NInf PInf = NaN"

definition num_sub :: "number \<Rightarrow> number \<Rightarrow> number" where
  "num_sub x y = num_add x (num_neg y)"

text \<open>The sign of a number: 1, 0 or -1 (NaN has none and is handled before).\<close>

fun num_sgn :: "number \<Rightarrow> int" where
  "num_sgn (Fin x) = (if x > 0 then 1 else if x < 0 then -1 else 0)"
| "num_sgn PInf = 1"
| "num_sgn NInf = -1"
| "num_sgn NaN = 0"

definition signedInf :: "int \<Rightarrow> number" where
  "signedInf s = (if s = 0 then NaN else if s > 0 then PInf else NInf)"

fun num_mul :: "number \<Rightarrow> number \<Rightarrow> number" where
  "num_mul NaN y = NaN"
| "num_mul x NaN = NaN"
| "num_mul (Fin a) (Fin b) = roundRange (a * b)"
| "num_mul x y = signedInf (num_sgn x * num_sgn y)"

fun num_div :: "number \<Rightarrow> number \<Rightarrow> number" where
  "num_div NaN y = NaN"
| "num_div x NaN = NaN"
| "num_div (Fin a) (Fin b) =
     (if b = 0 then signedInf (num_sgn (Fin a)) else roundRange (a / b))"
| "num_div (Fin a) y = Fin 0"
| "num_div x (Fin b) = signedInf (num_sgn x * (if b < 0 then -1 else 1))"
| "num_div x y = NaN"

text \<open>\<open>x > y\<close> and \<open>x <= y\<close>: false as soon as one side is NaN.\<close>

fun num_gt :: "number \<Rightarrow> number \<Rightarrow> bool" where
  "num_gt NaN y = False"
| "num_gt x NaN = False"
| "num_gt (Fin a) (Fin b) = (a > b)"
| "num_gt PInf y = (y \<noteq> PInf)"
| "num_gt x NInf = (x \<noteq> NInf)"
| "num_gt x y = False"

fun num_le :: "number \<Rightarrow> number \<Rightarrow> bool" where
  "num_le NaN y = False"
| "num_le x NaN = False"
| "num_le x y = (\<not> num_gt x y)"

text \<open>\<open>Math.max(x, y)\<close>: NaN as soon as one argument is NaN.\<close>

fun Math_max :: "number \<Rightarrow> number \<Rightarrow> number" where
  "Math_max NaN y = NaN"
| "Math_max x NaN = NaN"
| "Math_max x y = (if num_gt y x then y else x)"

section \<open>Trades and totals\<close>

datatype TradeType = Buy | Sell

record Trade =
  id_t :: jsstring
  date :: jsstring
  type :: TradeType
  amount :: number
  price :: number
  amountInput :: jsstring
  priceInput :: jsstring

definition BASIC_DEDUCTION :: number where
  "BASIC_DEDUCTION = Fin 2500000"

definition TAX_RATE :: number where
  "TAX_RATE = Fin (22 / 100)"

record TotalsAcc =
  totalBuy :: number
  totalSell :: number

record Totals = TotalsAcc +
  profit :: number
  taxable :: number
  tax :: number

text \<open>The callback of \<open>deferredTrades.reduce\<close>.\<close>

definition reducer :: "TotalsAcc \<Rightarrow> Trade \<Rightarrow> TotalsAcc" where
  "reducer acc trade =
     (let gross = num_mul (amount trade) (price trade)
      in if type trade = Buy
         then acc\<lparr>totalBuy := num_add (totalBuy acc) gross\<rparr>
         else acc\<lparr>totalSell := num_add (totalSell acc) gross\<rparr>)"

definition totals :: "Trade list \<Rightarrow> Totals" where
  "totals deferredTrades =
     (let acc = foldl reducer \<lparr>totalBuy = Fin 0, totalSell = Fin 0\<rparr> deferredTrades;
          profit' = num_sub (totalSell acc) (totalBuy acc);
          taxable' = Math_max (Fin 0) (num_sub profit' BASIC_DEDUCTION);
          tax' = num_mul taxable' TAX_RATE
      in \<lparr>totalBuy = totalBuy acc, totalSell = totalSell acc,
          profit = profit', taxable = taxable', tax = tax'\<rparr>)"

definition netAfterTax :: "Totals \<Rightarrow> number" where
  "netAfterTax t =
     (if num_gt (profit t) (Fin 0)
      then Math_max (Fin 0) (num_sub (profit t) (tax t))
      else profit t)"

text \<open>
  The sum of the specification: the gross amounts \<open>amount \<times> price\<close> of the trades of one
  type, added up in list order from 0.
\<close>

definition spec_grossSum :: "TradeType \<Rightarrow> Trade list \<Rightarrow> number" where
  "spec_grossSum ty ts =
     foldl num_add (Fin 0) (map (\<lambda>t. num_mul (amount t) (price t)) (filter (\<lambda>t. type t = ty) ts))"

section \<open>The environment of the page\<close>

text \<open>
  What the page takes from the browser and cannot compute from its arguments:
  \<^item> \<open>randomUUID k\<close>: the result of the \<open>k\<close>-th call of \<open>crypto.randomUUID()\<close> of the session
    (the state counts the calls);
  \<^item> \<open>nowISOString\<close>: \<open>new Date().toISOString()\<close>;
  \<^item> \<open>dateISOString v\<close>: \<open>new Date(v).toISOString()\<close> when \<open>new Date(v)\<close> is a valid date,
    \<open>None\<close> when its time value is NaN;
  \<^item> \<open>numberToString x\<close>: \<open>String(x)\<close>.
\<close>

record Env =
  randomUUID :: "nat \<Rightarrow> jsstring"
  nowISOString :: jsstring
  dateISOString :: "jsstring \<Rightarrow> jsstring option"
  numberToString :: "number \<Rightarrow> jsstring"

definition createEmptyTrade :: "Env \<Rightarrow> nat \<Rightarrow> Trade" where
  "createEmptyTrade env k =
     \<lparr>id_t = randomUUID env k, date = take 10 (nowISOString env), type = Buy,
      amount = Fin 0, price = Fin 0, amountInput = [], priceInput = []\<rparr>"

section \<open>Number.parseFloat\<close>

text \<open>
  \<open>parseFloat\<close> skips leading white space and reads the longest prefix that is a
  StrDecimalLiteral: an optional sign, then \<open>Infinity\<close>, or digits with an optional
  fraction and an optional exponent (an exponent counts only when it has a digit). No
  such prefix gives NaN. The value is the exact decimal, brought into the range of a
  double by \<open>roundRange\<close>.
\<close>

definition isDigit :: "nat \<Rightarrow> bool" where
  "isDigit c = (48 \<le> c \<and> c \<le> 57)"

definition digitsValue :: "jsstring \<Rightarrow> nat" where
  "digitsValue ds = foldl (\<lambda>acc d. 10 * acc + (d - 48)) 0 ds"

definition isSign :: "jsstring \<Rightarrow> bool" where
  "isSign s = (s \<noteq> [] \<and> (hd s = 43 \<or> hd s = 45))"

definition isMinus :: "jsstring \<Rightarrow> bool" where
  "isMinus s = (s \<noteq> [] \<and> hd s = 45)"

definition exponentPart :: "jsstring \<Rightarrow> int" where
  "exponentPart r =
     (if r \<noteq> [] \<and> (hd r = 101 \<or> hd r = 69)
      then (let e = tl r;
                ds = takeWhile isDigit (if isSign e then tl e else e)
            in if ds = [] then 0
               else if isMinus e then - int (digitsValue ds) else int (digitsValue ds))
      else 0)"

definition parseFloat :: "jsstring \<Rightarrow> number" where
  "parseFloat s =
     (let t = dropWhile isWhiteSpace s;
          u = (if isSign t then tl t else t)
      in if prefix (ascii ''Infinity'') u then (if isMinus t then NInf else PInf)
         else
           (let ip = takeWhile isDigit u;
                r1 = dropWhile isDigit u;
                hasDot = (r1 \<noteq> [] \<and> hd r1 = 46);
                fp = (if hasDot then takeWhile isDigit (tl r1) else []);
                r2 = (if hasDot then dropWhile isDigit (tl r1) else r1)
            in if ip = [] \<and> fp = [] then NaN
               else
                 (let m = real (digitsValue ip) + real (digitsValue fp) / 10 ^ length fp;
                      e = exponentPart r2;
                      v = (if 0 \<le> e then m * 10 ^ nat e else m / 10 ^ nat (- e))
                  in roundRange (if isMinus t then - v else v))))"

section \<open>The CSV line tokenizer\<close>

text \<open>
  The \<open>for\<close> loop of \<open>parseCsvLine\<close>, with its index: \<open>line[i + 1]\<close> is \<open>undefined\<close>
  (here \<open>None\<close>) at the last character. Code unit 34 is the double quote, 44 the comma.
\<close>

function parseCsvLine_loop ::
  "jsstring \<Rightarrow> nat \<Rightarrow> jsstring list \<Rightarrow> jsstring \<Rightarrow> bool \<Rightarrow> jsstring list" where
  "parseCsvLine_loop line i result current insideQuotes =
     (if i < length line
      then (let char = line ! i;
                next = (if i + 1 < length line then Some (line ! (i + 1)) else None)
            in if char = 34 \<and> next = Some 34
               then parseCsvLine_loop line (i + 2) result (current @ [34]) insideQuotes
               else if char = 34
               then parseCsvLine_loop line (i + 1) result current (\<not> insideQuotes)
               else if char = 44 \<and> \<not> insideQuotes
               then parseCsvLine_loop line (i + 1) (result @ [trim current]) [] insideQuotes
               else parseCsvLine_loop line (i + 1) result (current @ [char]) insideQuotes)
      else result @ [trim current])"
  by pat_completeness auto
termination
  by (relation "measure (\<lambda>(line, i, result, current, insideQuotes). length line - i)") auto

declare parseCsvLine_loop.simps [simp del]

definition parseCsvLine :: "jsstring \<Rightarrow> jsstring list" where
  "parseCsvLine line = parseCsvLine_loop line 0 [] [] False"

section \<open>Cells to values\<close>

definition normalizeNumber :: "jsstring option \<Rightarrow> number" where
  "normalizeNumber value =
     (case value of
        None \<Rightarrow> NaN
      | Some v \<Rightarrow>
          if v = [] then NaN
          else (let cleaned = trim (filter (\<lambda>c. c \<noteq> 44) v)
                in if cleaned \<noteq> [] then parseFloat cleaned else NaN))"

definition normalizeDate :: "Env \<Rightarrow> jsstring option \<Rightarrow> jsstring" where
  "normalizeDate env value =
     (case value of
        None \<Rightarrow> take 10 (nowISOString env)
      | Some v \<Rightarrow>
          if v = [] then take 10 (nowISOString env)
          else (case dateISOString env v of
                  Some isoText \<Rightarrow> take 10 isoText
                | None \<Rightarrow> take 10 v))"

text \<open>The buy keywords; the two Korean ones are U+B9E4 U+C218 and U+C785 U+AE08.\<close>

definition buyWords :: "jsstring list" where
  "buyWords = [[47588, 49688], ascii ''bid'', ascii ''buy'', [51077, 44552], ascii ''deposit'']"

definition toTradeType :: "jsstring option \<Rightarrow> TradeType" where
  "toTradeType raw =
     (let value = toLowerCase (case raw of None \<Rightarrow> [] | Some r \<Rightarrow> r)
      in if list_ex (\<lambda>word. includes_str value word) buyWords then Buy else Sell)"

section \<open>Column mapping and rows\<close>

text \<open>\<open>Array.prototype.findIndex\<close>: the first index whose element satisfies, or -1.\<close>

fun findIndex :: "('a \<Rightarrow> bool) \<Rightarrow> 'a list \<Rightarrow> int" where
  "findIndex P [] = - 1"
| "findIndex P (x # xs) =
     (if P x then 0 else (let r = findIndex P xs in if r < 0 then - 1 else r + 1))"

definition getColumnIndex :: "jsstring list \<Rightarrow> jsstring list \<Rightarrow> int" where
  "getColumnIndex header candidates =
     findIndex (\<lambda>col. list_ex (\<lambda>candidate. includes_str col candidate) candidates) header"

text \<open>
  The candidate lists of the five columns. Korean literals: U+C77C U+C2DC,
  U+AC70 U+B798 U+C77C U+C2DC (date); U+AD6C U+BD84, U+AC70 U+B798 U+C720 U+D615 (type);
  U+C218 U+B7C9 (amount); U+AC00 U+ACA9, U+B2E8 U+AC00 (price);
  U+AC70 U+B798 U+AE08 U+C561 (total).
\<close>

definition dateCandidates :: "jsstring list" where
  "dateCandidates =
     [ascii ''date'', ascii ''time'', ascii ''timestamp'', [51068, 49884],
      [44144, 47000, 51068, 49884]]"

definition typeCandidates :: "jsstring list" where
  "typeCandidates =
     [ascii ''side'', ascii ''type'', ascii ''trade'', [44396, 48516],
      [44144, 47000, 50976, 54805]]"

definition amountCandidates :: "jsstring list" where
  "amountCandidates =
     [ascii ''amount'', ascii ''qty'', ascii ''quantity'', ascii ''volume'', [49688, 47049]]"

definition priceCandidates :: "jsstring list" where
  "priceCandidates = [ascii ''price'', [44032, 44201], [45800, 44032]]"

definition totalCandidates :: "jsstring list" where
  "totalCandidates =
     [ascii ''total'', ascii ''amount(krw)'', ascii ''krw'', ascii ''fill total'',
      [44144, 47000, 44552, 50529]]"

record Columns =
  dateIdx :: int
  typeIdx :: int
  amountIdx :: int
  priceIdx :: int
  totalIdx :: int

definition columnsOf :: "jsstring list \<Rightarrow> Columns" where
  "columnsOf header =
     \<lparr>dateIdx = getColumnIndex header dateCandidates,
      typeIdx = getColumnIndex header typeCandidates,
      amountIdx = getColumnIndex header amountCandidates,
      priceIdx = getColumnIndex header priceCandidates,
      totalIdx = getColumnIndex header totalCandidates\<rparr>"

definition getCell :: "jsstring list \<Rightarrow> int \<Rightarrow> jsstring option" where
  "getCell cells idx =
     (if 0 \<le> idx \<and> idx < int (length cells) then Some (cells ! nat idx) else None)"

text \<open>
  One turn of the \<open>for\<close> loop over the data lines: \<open>None\<close> is a \<open>continue\<close>, \<open>Some\<close> the
  trade pushed; \<open>k\<close> is the number of \<open>randomUUID\<close> calls made before.
\<close>

definition parseRow :: "Env \<Rightarrow> Columns \<Rightarrow> nat \<Rightarrow> jsstring \<Rightarrow> Trade option" where
  "parseRow env ix k line =
     (let cells = parseCsvLine line
      in if cells = [] then None
         else
           (let amount' = normalizeNumber (getCell cells (amountIdx ix));
                price' = normalizeNumber (getCell cells (priceIdx ix));
                total' = normalizeNumber (getCell cells (totalIdx ix));
                resolvedAmount = (if isFinite amount' then amount' else NaN);
                resolvedPrice =
                  (if isFinite price' \<and> num_gt price' (Fin 0) then price'
                   else if isFinite total' \<and> isFinite amount' \<and> num_gt amount' (Fin 0)
                   then num_div total' amount'
                   else NaN)
            in if \<not> isFinite resolvedAmount \<or> \<not> isFinite resolvedPrice then None
               else Some
                 \<lparr>id_t = randomUUID env k,
                  date = normalizeDate env (getCell cells (dateIdx ix)),
                  type = toTradeType (getCell cells (typeIdx ix)),
                  amount = resolvedAmount,
                  price = resolvedPrice,
                  amountInput =
                    (if isFinite resolvedAmount then numberToString env resolvedAmount else []),
                  priceInput =
                    (if isFinite resolvedPrice then numberToString env resolvedPrice else [])\<rparr>))"

fun parseRows :: "Env \<Rightarrow> Columns \<Rightarrow> jsstring list \<Rightarrow> nat \<Rightarrow> Trade list \<Rightarrow> Trade list" where
  "parseRows env ix [] k parsedTrades = parsedTrades"
| "parseRows env ix (line # rest) k parsedTrades =
     (case parseRow env ix k line of
        None \<Rightarrow> parseRows env ix rest k parsedTrades
      | Some trade \<Rightarrow> parseRows env ix rest (k + 1) (parsedTrades @ [trade]))"

definition csvLines :: "jsstring \<Rightarrow> jsstring list" where
  "csvLines text = filter (\<lambda>line. line \<noteq> []) (map trim (splitLines text []))"

definition parseCsvToTrades :: "Env \<Rightarrow> nat \<Rightarrow> jsstring \<Rightarrow> Trade list" where
  "parseCsvToTrades env k text =
     (let lines = csvLines text
      in if length lines < 2 then []
         else (let header = map toLowerCase (parseCsvLine (lines ! 0))
               in parseRows env (columnsOf header) (drop 1 lines) k []))"

section \<open>The state of the page and its handlers\<close>

record State =
  trades :: "Trade list"
  importMessage :: "jsstring option"
  uuidCalls :: nat

definition initialState :: "Env \<Rightarrow> State" where
  "initialState env =
     \<lparr>trades = [createEmptyTrade env 0], importMessage = None, uuidCalls = 1\<rparr>"

text \<open>
  The template of \<open>handleDownloadTemplate\<close>. The source writes each line end as
  \<^verbatim>\<open>"\\n"\<close> inside a double-quoted literal: a backslash (92) followed by the
  letter n (110), not a line feed.
\<close>

definition templateCsv :: jsstring where
  "templateCsv =
     ascii ''date,type,amount,price'' @ [92, 110] @
     ascii ''2025-01-01,buy,1,500000'' @ [92, 110] @
     ascii ''2025-01-02,sell,0.5,600000'' @ [92, 110]"

datatype TradeField =
    Field_id jsstring
  | Field_date jsstring
  | Field_type TradeType
  | Field_amount number
  | Field_price number
  | Field_amountInput jsstring
  | Field_priceInput jsstring

fun setField :: "Trade \<Rightarrow> TradeField \<Rightarrow> Trade" where
  "setField trade (Field_id v) = trade\<lparr>id_t := v\<rparr>"
| "setField trade (Field_date v) = trade\<lparr>date := v\<rparr>"
| "setField trade (Field_type v) = trade\<lparr>type := v\<rparr>"
| "setField trade (Field_amount v) = trade\<lparr>amount := v\<rparr>"
| "setField trade (Field_price v) = trade\<lparr>price := v\<rparr>"
| "setField trade (Field_amountInput v) = trade\<lparr>amountInput := v\<rparr>"
| "setField trade (Field_priceInput v) = trade\<lparr>priceInput := v\<rparr>"

definition handleTradeChange :: "jsstring \<Rightarrow> TradeField \<Rightarrow> State \<Rightarrow> State" where
  "handleTradeChange id' kv s =
     s\<lparr>trades := map (\<lambda>trade. if id_t trade = id' then setField trade kv else trade) (trades s)\<rparr>"

definition handleAmountChange :: "jsstring \<Rightarrow> jsstring \<Rightarrow> State \<Rightarrow> State" where
  "handleAmountChange id' value s =
     s\<lparr>trades :=
         map (\<lambda>trade.
                if id_t trade \<noteq> id' then trade
                else (let parsed = parseFloat value
                      in trade\<lparr>amountInput := value,
                               amount := (if isFinite parsed then parsed else Fin 0)\<rparr>))
             (trades s)\<rparr>"

definition handlePriceChange :: "jsstring \<Rightarrow> jsstring \<Rightarrow> State \<Rightarrow> State" where
  "handlePriceChange id' value s =
     s\<lparr>trades :=
         map (\<lambda>trade.
                if id_t trade \<noteq> id' then trade
                else (let parsed = parseFloat value
                      in trade\<lparr>priceInput := value,
                               price := (if isFinite parsed then parsed else Fin 0)\<rparr>))
             (trades s)\<rparr>"

definition handleAddTrade :: "Env \<Rightarrow> State \<Rightarrow> State" where
  "handleAddTrade env s =
     s\<lparr>trades := trades s @ [createEmptyTrade env (uuidCalls s)],
       uuidCalls := uuidCalls s + 1\<rparr>"

definition handleDeleteTrade :: "jsstring \<Rightarrow> State \<Rightarrow> State" where
  "handleDeleteTrade id' s =
     s\<lparr>trades :=
         (if length (trades s) = 1 then trades s
          else filter (\<lambda>trade. id_t trade \<noteq> id') (trades s))\<rparr>"

text \<open>
  The two messages of the import. The first is the Korean sentence of the source, as
  code units; the second is the template literal around the count, written in decimal.
\<close>

definition noRowsMessage :: jsstring where
  "noRowsMessage =
     [67, 83, 86, 50640, 49436, 32, 51069, 51012, 32, 49688, 32, 51080, 45716, 32, 54665,
      51060, 32, 50630, 49845, 45768, 45796, 46, 32, 54756, 45908, 47484, 32, 54869, 51064,
      54644, 51452, 49464, 50836, 46]"

fun natToString :: "nat \<Rightarrow> jsstring" where
  "natToString n = (if n < 10 then [48 + n] else natToString (n div 10) @ [48 + n mod 10])"

definition addedMessage :: "nat \<Rightarrow> jsstring" where
  "addedMessage n =
     [67, 83, 86, 50640, 49436, 32] @ natToString n @
     [44148, 51012, 32, 52628, 44032, 54664, 49845, 45768, 45796, 46]"

text \<open>\<open>reader.onload\<close>, with \<open>content = String(reader.result || "")\<close>.\<close>

definition onload :: "Env \<Rightarrow> jsstring \<Rightarrow> State \<Rightarrow> State" where
  "onload env content s =
     (let importedTrades = parseCsvToTrades env (uuidCalls s) content
      in if length importedTrades = 0
         then s\<lparr>importMessage := Some noRowsMessage\<rparr>
         else s\<lparr>trades := trades s @ importedTrades,
                importMessage := Some (addedMessage (length importedTrades)),
                uuidCalls := uuidCalls s + length importedTrades\<rparr>)"

text \<open>
  \<open>handleFileSelect\<close>: without a file nothing happens; with one, the reader delivers
  its text to \<open>onload\<close>. The read is asynchronous, and \<open>handleFileSelect\<close> itself
  changes no state before \<open>onload\<close> runs: the event stands for the moment at which
  \<open>onload\<close> runs, on the state the page then has.
\<close>

definition handleFileSelect :: "Env \<Rightarrow> jsstring option \<Rightarrow> State \<Rightarrow> State" where
  "handleFileSelect env file s =
     (case file of None \<Rightarrow> s | Some content \<Rightarrow> onload env content s)"

text \<open>
  The events of the page, as its JSX wires them: the date input and the type select
  call \<open>handleTradeChange\<close> with the keys \<open>date\<close> and \<open>type\<close>; the template download
  changes no state.
\<close>

datatype Event =
    AddTrade
  | DeleteTrade jsstring
  | AmountChange jsstring jsstring
  | PriceChange jsstring jsstring
  | DateChange jsstring jsstring
  | TypeChange jsstring TradeType
  | FileSelect "jsstring option"
  | DownloadTemplate

fun step :: "Env \<Rightarrow> State \<Rightarrow> Event \<Rightarrow> State" where
  "step env s AddTrade = handleAddTrade env s"
| "step env s (DeleteTrade i) = handleDeleteTrade i s"
| "step env s (AmountChange i v) = handleAmountChange i v s"
| "step env s (PriceChange i v) = handlePriceChange i v s"
| "step env s (DateChange i v) = handleTradeChange i (Field_date v) s"
| "step env s (TypeChange i v) = handleTradeChange i (Field_type v) s"
| "step env s (FileSelect file) = handleFileSelect env file s"
| "step env s DownloadTemplate = s"

definition run :: "Env \<Rightarrow> Event list \<Rightarrow> State" where
  "run env events = foldl (step env) (initialState env) events"

section \<open>Definitions of the specification\<close>

text \<open>
  The tokenizer in the words of the specification: one pass over the characters with the
  flag \<open>insideQuotes\<close>; a doubled quote is an escaped quote only while inside quotes.
\<close>

fun spec_scanLine :: "jsstring \<Rightarrow> jsstring list \<Rightarrow> jsstring \<Rightarrow> bool \<Rightarrow> jsstring list" where
  "spec_scanLine [] result current insideQuotes = result @ [trim current]"
| "spec_scanLine (c # cs) result current insideQuotes =
     (if c = 34 \<and> insideQuotes \<and> cs \<noteq> [] \<and> hd cs = 34
      then spec_scanLine (tl cs) result (current @ [34]) insideQuotes
      else if c = 34 then spec_scanLine cs result current (\<not> insideQuotes)
      else if c = 44 \<and> \<not> insideQuotes
      then spec_scanLine cs (result @ [trim current]) [] insideQuotes
      else spec_scanLine cs result (current @ [c]) insideQuotes)"

text \<open>
  The same pass with the escaped-quote rule as the source has it: a doubled quote is a
  literal quote whatever the flag, and leaves the flag as it is.
\<close>

fun scanLine :: "jsstring \<Rightarrow> jsstring list \<Rightarrow> jsstring \<Rightarrow> bool \<Rightarrow> jsstring list" where
  "scanLine [] result current insideQuotes = result @ [trim current]"
| "scanLine (c # cs) result current insideQuotes =
     (if c = 34 \<and> cs \<noteq> [] \<and> hd cs = 34
      then scanLine (tl cs) result (current @ [34]) insideQuotes
      else if c = 34 then scanLine cs result current (\<not> insideQuotes)
      else if c = 44 \<and> \<not> insideQuotes
      then scanLine cs (result @ [trim current]) [] insideQuotes
      else scanLine cs result (current @ [c]) insideQuotes)"

text \<open>
  A name for the expression bound to \<open>resolvedPrice\<close> in the loop of
  \<open>parseCsvToTrades\<close>, as a function of the three numbers read from the row.
\<close>

definition resolvePrice :: "number \<Rightarrow> number \<Rightarrow> number \<Rightarrow> number" where
  "resolvePrice price' total' amount' =
     (if isFinite price' \<and> num_gt price' (Fin 0) then price'
      else if isFinite total' \<and> isFinite amount' \<and> num_gt amount' (Fin 0)
      then num_div total' amount'
      else NaN)"

text \<open>Every stored amount and price is a finite number.\<close>

definition finiteTrades :: "Trade list \<Rightarrow> bool" where
  "finiteTrades ts = list_all (\<lambda>t. isFinite (amount t) \<and> isFinite (price t)) ts"


text \<open>
  The identifiers of the stored trades are pairwise different results of the
  \<open>randomUUID\<close> calls made so far.
\<close>

definition freshIds :: "Env \<Rightarrow> State \<Rightarrow> bool" where
  "freshIds env s =
     (distinct (map id_t (trades s)) \<and>
      set (map id_t (trades s)) \<subseteq> randomUUID env ` {..< uuidCalls s})"


section \<open>Example inputs\<close>

definition exampleTrade :: "TradeType \<Rightarrow> real \<Rightarrow> real \<Rightarrow> Trade" where
  "exampleTrade ty a p =
     \<lparr>id_t = [], date = [], type = ty, amount = Fin a, price = Fin p,
      amountInput = [], priceInput = []\<rparr>"

text \<open>
  An environment whose \<open>k\<close>-th identifier is the one-unit string \<open>[k]\<close>, so that no two
  calls return the same identifier.
\<close>

definition exampleEnv :: Env where
  "exampleEnv =
     \<lparr>randomUUID = (\<lambda>k. [k]), nowISOString = ascii ''2025-06-01T00:00:00.000Z'',
      dateISOString = (\<lambda>v. None), numberToString = (\<lambda>x. [])\<rparr>"

text \<open>
  The template as its users are told to fill it in: the same three lines, each ended by
  a line feed.
\<close>

definition intendedTemplateCsv :: jsstring where
  "intendedTemplateCsv =
     ascii ''date,type,amount,price'' @ [10] @
     ascii ''2025-01-01,buy,1,500000'' @ [10] @
     ascii ''2025-01-02,sell,0.5,600000'' @ [10]"

text \<open>The header of the specification's column-mapping example, followed by one row.\<close>

definition exampleHeaderCsv :: "jsstring \<Rightarrow> jsstring" where
  "exampleHeaderCsv row = ascii ''Fill Total,Quantity,Side'' @ [10] @ row"

text \<open>The columns found under the template's header and under the example header.\<close>

definition priceColumns :: Columns where
  "priceColumns = \<lparr>dateIdx = 0, typeIdx = 1, amountIdx = 2, priceIdx = 3, totalIdx = - 1\<rparr>"

definition totalColumns :: Columns where
  "totalColumns = \<lparr>dateIdx = - 1, typeIdx = 2, amountIdx = 1, priceIdx = - 1, totalIdx = 0\<rparr>"

text \<open>
  The template's header followed by one row, and two rows that differ in their date cell
  only: an empty quoted field and an empty field.
\<close>

definition templateHeaderCsv :: "jsstring \<Rightarrow> jsstring" where
  "templateHeaderCsv row = ascii ''date,type,amount,price'' @ [10] @ row"

definition quotedEmptyDateRow :: jsstring where
  "quotedEmptyDateRow = [34, 34] @ ascii '',buy,1,500''"

definition emptyDateRow :: jsstring where
  "emptyDateRow = ascii '',buy,1,500''"

section \<open>Facts about numbers\<close>

lemma overflowBound_pos: "0 < overflowBound"
  by (simp add: overflowBound_def)

lemma underflowBound_pos: "0 < underflowBound"
  by (simp add: underflowBound_def)

lemma roundRange_0: "roundRange 0 = Fin 0"
  using overflowBound_pos underflowBound_pos by (simp add: roundRange_def)

lemma roundRange_mid:
  assumes lo: "1 / 1000 \<le> \<bar>x\<bar>" and hi: "\<bar>x\<bar> \<le> 10 ^ 15"
  shows "roundRange x = Fin x"
proof -
  have "(10::real) ^ 15 < overflowBound" by (simp add: overflowBound_def)
  moreover have "underflowBound < 1 / 1000" by (simp add: underflowBound_def)
  ultimately show ?thesis using lo hi by (auto simp: roundRange_def)
qed

lemma not_gt_of_le: "num_le p q \<Longrightarrow> \<not> num_gt p q"
  by (cases p; cases q) auto

section \<open>Tax aggregation\<close>

lemma reducer_Buy:
  "type t = Buy \<Longrightarrow>
   reducer acc t = acc\<lparr>totalBuy := num_add (totalBuy acc) (num_mul (amount t) (price t))\<rparr>"
  by (simp add: reducer_def)

lemma reducer_Sell:
  "type t = Sell \<Longrightarrow>
   reducer acc t = acc\<lparr>totalSell := num_add (totalSell acc) (num_mul (amount t) (price t))\<rparr>"
  by (simp add: reducer_def)

text \<open>The one pass with two running sums is the two sums of the specification.\<close>

lemma foldl_reducer:
  "foldl reducer acc ts =
     \<lparr>totalBuy = foldl num_add (totalBuy acc)
         (map (\<lambda>t. num_mul (amount t) (price t)) (filter (\<lambda>t. type t = Buy) ts)),
      totalSell = foldl num_add (totalSell acc)
         (map (\<lambda>t. num_mul (amount t) (price t)) (filter (\<lambda>t. type t = Sell) ts))\<rparr>"
proof (induction ts arbitrary: acc)
  case Nil
  show ?case by simp
next
  case (Cons t ts)
  show ?case
  proof (cases "type t")
    case Buy
    then show ?thesis by (simp add: Cons.IH reducer_Buy)
  next
    case Sell
    then show ?thesis by (simp add: Cons.IH reducer_Sell)
  qed
qed

lemma taxable_nonpositive_profit:
  assumes "num_le p (Fin 0)"
  shows "Math_max (Fin 0) (num_sub p BASIC_DEDUCTION) = Fin 0"
proof (cases p)
  case (Fin a)
  with assms have a: "a \<le> 0" by simp
  have "num_sub p BASIC_DEDUCTION = roundRange (a - 2500000)"
    by (simp add: Fin num_sub_def BASIC_DEDUCTION_def)
  moreover have "a - 2500000 < 0" using a by simp
  ultimately show ?thesis
    using overflowBound_pos by (auto simp: roundRange_def)
next
  case PInf
  with assms show ?thesis by simp
next
  case NInf
  then show ?thesis by (simp add: num_sub_def BASIC_DEDUCTION_def)
next
  case NaN
  with assms show ?thesis by simp
qed

lemma taxed_profit:
  assumes p: "profit (totals ts) = Fin p" and lo: "2500000 + 1 / 100 \<le> p" and hi: "p \<le> 10 ^ 15"
  shows "taxable (totals ts) = Fin (p - 2500000)"
    and "tax (totals ts) = Fin ((p - 2500000) * (22 / 100))"
    and "netAfterTax (totals ts) = Fin (p - (p - 2500000) * (22 / 100))"
proof -
  have t: "taxable (totals ts) = Math_max (Fin 0) (num_sub (profit (totals ts)) BASIC_DEDUCTION)"
    and x: "tax (totals ts) = num_mul (taxable (totals ts)) TAX_RATE"
    by (simp_all add: totals_def Let_def)
  have "roundRange (p - 2500000) = Fin (p - 2500000)"
    using lo hi by (intro roundRange_mid) auto
  with lo show a: "taxable (totals ts) = Fin (p - 2500000)"
    by (simp add: t p num_sub_def BASIC_DEDUCTION_def)
  have "roundRange ((p - 2500000) * (22 / 100)) = Fin ((p - 2500000) * (22 / 100))"
    using lo hi by (intro roundRange_mid) auto
  then show b: "tax (totals ts) = Fin ((p - 2500000) * (22 / 100))"
    by (simp add: x a TAX_RATE_def)
  have net: "p - (p - 2500000) * (22 / 100) = (78 / 100) * p + 550000"
    by (simp add: algebra_simps)
  have "1 / 1000 \<le> \<bar>(78 / 100) * p + 550000\<bar>" using lo by simp
  moreover have "\<bar>(78 / 100) * p + 550000\<bar> \<le> 10 ^ 15" using lo hi by simp
  ultimately have "roundRange (p - (p - 2500000) * (22 / 100)) = Fin (p - (p - 2500000) * (22 / 100))"
    unfolding net by (rule roundRange_mid)
  with lo show "netAfterTax (totals ts) = Fin (p - (p - 2500000) * (22 / 100))"
    by (simp add: netAfterTax_def p b num_sub_def)
qed

lemma untaxed_profit:
  assumes p: "profit (totals ts) = Fin p" and lo: "1 / 1000 \<le> p" and hi: "p \<le> 2500000"
  shows "taxable (totals ts) = Fin 0" and "tax (totals ts) = Fin 0"
    and "netAfterTax (totals ts) = Fin p"
proof -
  have t: "taxable (totals ts) = Math_max (Fin 0) (num_sub (profit (totals ts)) BASIC_DEDUCTION)"
    and x: "tax (totals ts) = num_mul (taxable (totals ts)) TAX_RATE"
    by (simp_all add: totals_def Let_def)
  have "Math_max (Fin 0) (roundRange (p - 2500000)) = Fin 0"
    using hi overflowBound_pos by (auto simp: roundRange_def)
  then show a: "taxable (totals ts) = Fin 0"
    by (simp add: t p num_sub_def BASIC_DEDUCTION_def)
  then show b: "tax (totals ts) = Fin 0"
    by (simp add: x TAX_RATE_def roundRange_0)
  have "roundRange p = Fin p" using lo hi by (intro roundRange_mid) auto
  with lo show "netAfterTax (totals ts) = Fin p"
    by (simp add: netAfterTax_def p b num_sub_def)
qed

text \<open>
  C1. For every trade list, \<open>totalBuy\<close> is the sum of \<open>amount \<times> price\<close> over the buy
  trades and \<open>totalSell\<close> the sum over the sell trades; \<open>profit = totalSell - totalBuy\<close>,
  \<open>taxable = max(0, profit - 2500000)\<close>, \<open>tax = taxable \<times> 0.22\<close>, and \<open>netAfterTax\<close> is
  \<open>max(0, profit - tax)\<close> when \<open>profit > 0\<close> and \<open>profit\<close> otherwise. In values: whenever
  \<open>profit \<le> 0\<close>, the tax is 0 and \<open>netAfterTax = profit\<close>; a profit \<open>p\<close> up to the
  deduction has taxable base 0, tax 0 and \<open>netAfterTax = p\<close>; a profit \<open>p\<close> above the
  deduction has taxable base \<open>p - 2500000\<close>, tax \<open>(p - 2500000) \<times> 0.22\<close> and
  \<open>netAfterTax = p - (p - 2500000) \<times> 0.22\<close> (amounts between a hundredth of a
  currency unit and \<open>10^15\<close>, where the model's results are the exact reals).
\<close>

theorem totals_formulas:
  "totalBuy (totals ts) = spec_grossSum Buy ts \<and>
   totalSell (totals ts) = spec_grossSum Sell ts \<and>
   profit (totals ts) = num_sub (totalSell (totals ts)) (totalBuy (totals ts)) \<and>
   taxable (totals ts) = Math_max (Fin 0) (num_sub (profit (totals ts)) (Fin 2500000)) \<and>
   tax (totals ts) = num_mul (taxable (totals ts)) (Fin (22 / 100)) \<and>
   netAfterTax (totals ts) =
     (if num_gt (profit (totals ts)) (Fin 0)
      then Math_max (Fin 0) (num_sub (profit (totals ts)) (tax (totals ts)))
      else profit (totals ts)) \<and>
   (num_le (profit (totals ts)) (Fin 0) \<longrightarrow>
      tax (totals ts) = Fin 0 \<and> netAfterTax (totals ts) = profit (totals ts)) \<and>
   (profit (totals ts) = Fin p \<and> 1 / 1000 \<le> p \<and> p \<le> 2500000 \<longrightarrow>
      taxable (totals ts) = Fin 0 \<and> tax (totals ts) = Fin 0 \<and>
      netAfterTax (totals ts) = Fin p) \<and>
   (profit (totals ts) = Fin p \<and> 2500000 + 1 / 100 \<le> p \<and> p \<le> 10 ^ 15 \<longrightarrow>
      taxable (totals ts) = Fin (p - 2500000) \<and>
      tax (totals ts) = Fin ((p - 2500000) * (22 / 100)) \<and>
      netAfterTax (totals ts) = Fin (p - (p - 2500000) * (22 / 100)))"
proof -
  have sums: "totalBuy (totals ts) = spec_grossSum Buy ts"
             "totalSell (totals ts) = spec_grossSum Sell ts"
    by (simp_all add: totals_def Let_def spec_grossSum_def foldl_reducer)
  have derived:
    "profit (totals ts) = num_sub (totalSell (totals ts)) (totalBuy (totals ts))"
    "taxable (totals ts) = Math_max (Fin 0) (num_sub (profit (totals ts)) (Fin 2500000))"
    "tax (totals ts) = num_mul (taxable (totals ts)) (Fin (22 / 100))"
    by (simp_all add: totals_def Let_def BASIC_DEDUCTION_def TAX_RATE_def)
  have net: "netAfterTax (totals ts) =
     (if num_gt (profit (totals ts)) (Fin 0)
      then Math_max (Fin 0) (num_sub (profit (totals ts)) (tax (totals ts)))
      else profit (totals ts))"
    by (simp add: netAfterTax_def)
  have loss: "num_le (profit (totals ts)) (Fin 0) \<longrightarrow>
      tax (totals ts) = Fin 0 \<and> netAfterTax (totals ts) = profit (totals ts)"
  proof
    assume le: "num_le (profit (totals ts)) (Fin 0)"
    have "taxable (totals ts) = Fin 0"
      using taxable_nonpositive_profit [OF le] derived(2) by (simp add: BASIC_DEDUCTION_def)
    then have "tax (totals ts) = Fin 0"
      using derived(3) by (simp add: roundRange_0)
    moreover have "netAfterTax (totals ts) = profit (totals ts)"
      using not_gt_of_le [OF le] by (simp add: netAfterTax_def)
    ultimately show "tax (totals ts) = Fin 0 \<and> netAfterTax (totals ts) = profit (totals ts)"
      by simp
  qed
  have small: "profit (totals ts) = Fin p \<and> 1 / 1000 \<le> p \<and> p \<le> 2500000 \<longrightarrow>
      taxable (totals ts) = Fin 0 \<and> tax (totals ts) = Fin 0 \<and>
      netAfterTax (totals ts) = Fin p"
    using untaxed_profit [of ts p] by blast
  have gain: "profit (totals ts) = Fin p \<and> 2500000 + 1 / 100 \<le> p \<and> p \<le> 10 ^ 15 \<longrightarrow>
      taxable (totals ts) = Fin (p - 2500000) \<and>
      tax (totals ts) = Fin ((p - 2500000) * (22 / 100)) \<and>
      netAfterTax (totals ts) = Fin (p - (p - 2500000) * (22 / 100))"
    using taxed_profit [of ts p] by blast
  show ?thesis
    apply (rule conjI, rule sums(1))
    apply (rule conjI, rule sums(2))
    apply (rule conjI, rule derived(1))
    apply (rule conjI, rule derived(2))
    apply (rule conjI, rule derived(3))
    apply (rule conjI, rule net)
    apply (rule conjI, rule loss)
    apply (rule conjI, rule small)
    apply (rule gain)
    done
qed

lemma example_totals:
  "totals [exampleTrade Buy 1 500000, exampleTrade Sell (1 / 2) 600000] =
   \<lparr>totalBuy = Fin 500000, totalSell = Fin 300000, profit = Fin (- 200000),
    taxable = Fin 0, tax = Fin 0\<rparr>"
  by (simp add: totals_def reducer_def exampleTrade_def Let_def roundRange_mid roundRange_0
      num_sub_def BASIC_DEDUCTION_def TAX_RATE_def)

lemma example_gain_totals:
  "totals [exampleTrade Sell 1 10000000] =
   \<lparr>totalBuy = Fin 0, totalSell = Fin 10000000, profit = Fin 10000000,
    taxable = Fin 7500000, tax = Fin 1650000\<rparr>"
  by (simp add: totals_def reducer_def exampleTrade_def Let_def roundRange_mid roundRange_0
      num_sub_def BASIC_DEDUCTION_def TAX_RATE_def)

lemma example_small_totals:
  "totals [exampleTrade Buy 2 1000000, exampleTrade Sell 2 1500000] =
   \<lparr>totalBuy = Fin 2000000, totalSell = Fin 3000000, profit = Fin 1000000,
    taxable = Fin 0, tax = Fin 0\<rparr>"
  by (simp add: totals_def reducer_def exampleTrade_def Let_def roundRange_mid roundRange_0
      num_sub_def BASIC_DEDUCTION_def TAX_RATE_def)

theorem totals_formulas_witness:
  "num_le (profit (totals [exampleTrade Buy 1 500000, exampleTrade Sell (1 / 2) 600000])) (Fin 0) \<and>
   tax (totals [exampleTrade Buy 1 500000, exampleTrade Sell (1 / 2) 600000]) = Fin 0 \<and>
   netAfterTax (totals [exampleTrade Buy 1 500000, exampleTrade Sell (1 / 2) 600000]) =
     Fin (- 200000) \<and>
   profit (totals [exampleTrade Buy 2 1000000, exampleTrade Sell 2 1500000]) = Fin 1000000 \<and>
   taxable (totals [exampleTrade Buy 2 1000000, exampleTrade Sell 2 1500000]) = Fin 0 \<and>
   tax (totals [exampleTrade Buy 2 1000000, exampleTrade Sell 2 1500000]) = Fin 0 \<and>
   netAfterTax (totals [exampleTrade Buy 2 1000000, exampleTrade Sell 2 1500000]) = Fin 1000000 \<and>
   profit (totals [exampleTrade Sell 1 10000000]) = Fin 10000000 \<and>
   taxable (totals [exampleTrade Sell 1 10000000]) = Fin 7500000 \<and>
   tax (totals [exampleTrade Sell 1 10000000]) = Fin 1650000 \<and>
   netAfterTax (totals [exampleTrade Sell 1 10000000]) = Fin 8350000"
proof -
  let ?loss = "[exampleTrade Buy 1 500000, exampleTrade Sell (1 / 2) 600000]"
  let ?small = "[exampleTrade Buy 2 1000000, exampleTrade Sell 2 1500000]"
  let ?gain = "[exampleTrade Sell 1 10000000]"
  have le: "num_le (profit (totals ?loss)) (Fin 0)"
    by (simp add: example_totals)
  with totals_formulas [of ?loss]
  have "tax (totals ?loss) = Fin 0 \<and> netAfterTax (totals ?loss) = profit (totals ?loss)"
    by blast
  moreover have "profit (totals ?loss) = Fin (- 200000)"
    by (simp add: example_totals)
  ultimately have a: "tax (totals ?loss) = Fin 0 \<and> netAfterTax (totals ?loss) = Fin (- 200000)"
    by simp
  have ps: "profit (totals ?small) = Fin 1000000" by (simp add: example_small_totals)
  then have "profit (totals ?small) = Fin 1000000 \<and> 1 / 1000 \<le> (1000000::real) \<and>
      (1000000::real) \<le> 2500000" by simp
  with totals_formulas [of ?small 1000000]
  have b: "taxable (totals ?small) = Fin 0 \<and> tax (totals ?small) = Fin 0 \<and>
      netAfterTax (totals ?small) = Fin 1000000" by blast
  have pg: "profit (totals ?gain) = Fin 10000000" by (simp add: example_gain_totals)
  then have "profit (totals ?gain) = Fin 10000000 \<and> 2500000 + 1 / 100 \<le> (10000000::real) \<and>
      (10000000::real) \<le> 10 ^ 15" by simp
  with totals_formulas [of ?gain 10000000]
  have "taxable (totals ?gain) = Fin (10000000 - 2500000) \<and>
      tax (totals ?gain) = Fin ((10000000 - 2500000) * (22 / 100)) \<and>
      netAfterTax (totals ?gain) = Fin (10000000 - (10000000 - 2500000) * (22 / 100))" by blast
  then have c: "taxable (totals ?gain) = Fin 7500000 \<and> tax (totals ?gain) = Fin 1650000 \<and>
      netAfterTax (totals ?gain) = Fin 8350000" by simp
  from le a ps b pg c show ?thesis by blast
qed

section \<open>The CSV line tokenizer\<close>

text \<open>One turn of the loop, and one step of the state machine on the rest of the line.\<close>

lemma loop_step:
  "i < length line \<Longrightarrow>
   parseCsvLine_loop line i result current q =
     (if line ! i = 34 \<and> Suc i < length line \<and> line ! Suc i = 34
      then parseCsvLine_loop line (i + 2) result (current @ [34]) q
      else if line ! i = 34 then parseCsvLine_loop line (i + 1) result current (\<not> q)
      else if line ! i = 44 \<and> \<not> q
      then parseCsvLine_loop line (i + 1) (result @ [trim current]) [] q
      else parseCsvLine_loop line (i + 1) result (current @ [line ! i]) q)"
  by (subst parseCsvLine_loop.simps) (simp add: Let_def)

lemma scan_step:
  assumes "i < length line"
  shows "scanLine (drop i line) result current q =
     (if line ! i = 34 \<and> Suc i < length line \<and> line ! Suc i = 34
      then scanLine (drop (i + 2) line) result (current @ [34]) q
      else if line ! i = 34 then scanLine (drop (i + 1) line) result current (\<not> q)
      else if line ! i = 44 \<and> \<not> q
      then scanLine (drop (i + 1) line) (result @ [trim current]) [] q
      else scanLine (drop (i + 1) line) result (current @ [line ! i]) q)"
proof -
  from assms have d: "drop i line = line ! i # drop (Suc i) line"
    by (simp add: Cons_nth_drop_Suc)
  show ?thesis
  proof (cases "Suc i < length line")
    case True
    then have "drop (Suc i) line = line ! Suc i # drop (Suc (Suc i)) line"
      by (simp add: Cons_nth_drop_Suc)
    with True show ?thesis by (simp add: d)
  next
    case False
    then have "drop (Suc i) line = []" by simp
    with False show ?thesis by (simp add: d)
  qed
qed

lemma loop_scanLine:
  "i \<le> length line \<Longrightarrow>
   parseCsvLine_loop line i result current q = scanLine (drop i line) result current q"
proof (induction line i result current q rule: parseCsvLine_loop.induct)
  case (1 line i result current q)
  show ?case
  proof (cases "i < length line")
    case False
    with "1.prems" have "drop i line = []" by simp
    with False show ?thesis by (subst parseCsvLine_loop.simps) simp
  next
    case True
    note IH = "1.IH" [OF True refl refl]
    show ?thesis
    proof (cases "line ! i = 34 \<and> Suc i < length line \<and> line ! Suc i = 34")
      case doubled: True
      then have "parseCsvLine_loop line (i + 2) result (current @ [34]) q =
                 scanLine (drop (i + 2) line) result (current @ [34]) q"
        by (intro IH(1)) simp_all
      with doubled show ?thesis
        by (simp add: loop_step [OF True] scan_step [OF True])
    next
      case single: False
      show ?thesis
      proof (cases "line ! i = 34")
        case quote: True
        with single have "parseCsvLine_loop line (i + 1) result current (\<not> q) =
                   scanLine (drop (i + 1) line) result current (\<not> q)"
          using True by (intro IH(2)) auto
        with single quote show ?thesis
          by (auto simp add: loop_step [OF True] scan_step [OF True])
      next
        case other: False
        show ?thesis
        proof (cases "line ! i = 44 \<and> \<not> q")
          case comma: True
          with other have "parseCsvLine_loop line (i + 1) (result @ [trim current]) [] q =
                     scanLine (drop (i + 1) line) (result @ [trim current]) [] q"
            using True by (intro IH(3)) auto
          with single other comma show ?thesis
            by (auto simp add: loop_step [OF True] scan_step [OF True])
        next
          case plain: False
          with other have "parseCsvLine_loop line (i + 1) result (current @ [line ! i]) q =
                     scanLine (drop (i + 1) line) result (current @ [line ! i]) q"
            using True by (intro IH(4)) auto
          with single other plain show ?thesis
            by (auto simp add: loop_step [OF True] scan_step [OF True])
        qed
      qed
    qed
  qed
qed

lemma parseCsvLine_scanLine: "parseCsvLine line = scanLine line [] [] False"
  by (simp add: parseCsvLine_def loop_scanLine)

text \<open>What \<open>trim\<close> returns has no white space at either end, so trimming it again changes nothing.\<close>

lemma last_dropWhile: "dropWhile P xs \<noteq> [] \<Longrightarrow> last (dropWhile P xs) = last xs"
  by (induction xs) (auto split: if_splits)

lemma trim_ends:
  "trim s = [] \<or> (\<not> isWhiteSpace (hd (trim s)) \<and> \<not> isWhiteSpace (last (trim s)))"
proof (cases "trim s = []")
  case True
  then show ?thesis by simp
next
  case False
  define s' where "s' = dropWhile isWhiteSpace s"
  define d where "d = dropWhile isWhiteSpace (rev s')"
  have t: "trim s = rev d" by (simp add: trim_def d_def s'_def)
  from False have d: "d \<noteq> []" by (simp add: t)
  have s': "s' \<noteq> []"
  proof
    assume "s' = []"
    then have "d = []" by (simp add: d_def)
    with d show False by simp
  qed
  have "last (trim s) = hd d" using d by (simp add: t last_rev)
  moreover have "\<not> isWhiteSpace (hd d)"
    unfolding d_def by (rule hd_dropWhile) (use d in \<open>simp add: d_def\<close>)
  ultimately have l: "\<not> isWhiteSpace (last (trim s))" by simp
  have "hd (trim s) = last d" using d by (simp add: t hd_rev)
  also have "\<dots> = last (rev s')" unfolding d_def by (rule last_dropWhile) (use d in \<open>simp add: d_def\<close>)
  also have "\<dots> = hd s'" using s' by (simp add: last_rev)
  finally have "hd (trim s) = hd s'" .
  moreover have "\<not> isWhiteSpace (hd s')"
    unfolding s'_def by (rule hd_dropWhile) (use s' in \<open>simp add: s'_def\<close>)
  ultimately show ?thesis using l by simp
qed

lemma dropWhile_hd_id: "xs = [] \<or> \<not> P (hd xs) \<Longrightarrow> dropWhile P xs = xs"
  by (cases xs) auto

lemma trim_fixed:
  assumes "f = [] \<or> (\<not> isWhiteSpace (hd f) \<and> \<not> isWhiteSpace (last f))"
  shows "trim f = f"
proof -
  have a: "dropWhile isWhiteSpace f = f"
    using assms by (intro dropWhile_hd_id) auto
  have "rev f = [] \<or> \<not> isWhiteSpace (hd (rev f))"
    using assms by (cases "f = []") (simp_all add: hd_rev)
  then have "dropWhile isWhiteSpace (rev f) = rev f"
    by (rule dropWhile_hd_id)
  with a show ?thesis by (simp add: trim_def)
qed

lemma trim_trim: "trim (trim s) = trim s"
  by (rule trim_fixed) (rule trim_ends)


lemma scanLine_trimmed:
  "\<forall>f \<in> set result. trim f = f \<Longrightarrow> \<forall>f \<in> set (scanLine cs result current q). trim f = f"
proof (induction cs result current q rule: scanLine.induct)
  case (1 result current q)
  then show ?case by (simp add: trim_trim)
next
  case (2 c cs result current q)
  from "2.prems" have r: "\<forall>f \<in> set (result @ [trim current]). trim f = f"
    by (simp add: trim_trim)
  show ?case
  proof (cases "c = 34 \<and> cs \<noteq> [] \<and> hd cs = 34")
    case True
    with "2.IH"(1) "2.prems" show ?thesis by simp
  next
    case nd: False
    show ?thesis
    proof (cases "c = 34")
      case True
      with nd "2.IH"(2) "2.prems" show ?thesis by auto
    next
      case nq: False
      show ?thesis
      proof (cases "c = 44 \<and> \<not> q")
        case True
        with nd nq "2.IH"(3) r show ?thesis by auto
      next
        case False
        with nd nq "2.IH"(4) "2.prems" show ?thesis by auto
      qed
    qed
  qed
qed

lemma scanLine_nonempty: "scanLine cs result current q \<noteq> []"
  by (induction cs result current q rule: scanLine.induct) auto

lemma parseCsvLine_nonempty: "parseCsvLine line \<noteq> []"
  by (simp add: parseCsvLine_scanLine scanLine_nonempty)

text \<open>Every field is trimmed, and the two example lines of the specification.\<close>

lemma parseCsvLine_trimmed: "\<forall>f \<in> set (parseCsvLine line). trim f = f"
  unfolding parseCsvLine_scanLine by (rule scanLine_trimmed) simp

lemma parseCsvLine_spec_examples:
  "parseCsvLine (ascii ''a,\"b,c\",d'') = [ascii ''a'', ascii ''b,c'', ascii ''d'']"
  "parseCsvLine (ascii ''a,\"b\"\"c\",d'') = [ascii ''a'', ascii ''b\"c'', ascii ''d'']"
  by (simp_all add: parseCsvLine_scanLine ascii_def trim_def isWhiteSpace_def)

section \<open>Type classification\<close>

lemma includes_str_sublist: "includes_str s w = sublist w s"
  by (induction s) (simp_all add: sublist_Cons_right)

text \<open>
  C5. For every type cell, \<open>toTradeType\<close> lower-cases the cell (an absent cell counts as
  empty) and returns buy exactly when the result contains one of the five keywords
  U+B9E4 U+C218, bid, buy, U+C785 U+AE08, deposit as a substring, and sell otherwise.
  Lower-casing turns \<open>Limit BUY\<close> into \<open>limit buy\<close> and keeps Hangul, so the first
  Korean keyword, \<open>BUY\<close>, \<open>Deposit\<close>, \<open>Limit BUY\<close> and \<open>BID\<close> give buy; \<open>SELL\<close> gives
  sell, and an empty, absent or unrecognized cell gives sell.
\<close>

theorem toTradeType_classification:
  "toTradeType raw =
     (if \<exists>word \<in> {[47588, 49688], ascii ''bid'', ascii ''buy'', [51077, 44552], ascii ''deposit''}.
           sublist word (toLowerCase (case raw of None \<Rightarrow> [] | Some cell \<Rightarrow> cell))
      then Buy else Sell) \<and>
   toLowerCase (ascii ''Limit BUY'') = ascii ''limit buy'' \<and>
   toLowerCase [47588, 49688] = [47588, 49688] \<and>
   toTradeType (Some [47588, 49688]) = Buy \<and>
   toTradeType (Some (ascii ''BUY'')) = Buy \<and>
   toTradeType (Some (ascii ''Deposit'')) = Buy \<and>
   toTradeType (Some (ascii ''Limit BUY'')) = Buy \<and>
   toTradeType (Some (ascii ''BID'')) = Buy \<and>
   toTradeType (Some (ascii ''SELL'')) = Sell \<and>
   toTradeType (Some []) = Sell \<and>
   toTradeType None = Sell \<and>
   toTradeType (Some (ascii ''transfer'')) = Sell"
proof -
  have general: "toTradeType raw =
     (if \<exists>word \<in> {[47588, 49688], ascii ''bid'', ascii ''buy'', [51077, 44552], ascii ''deposit''}.
           sublist word (toLowerCase (case raw of None \<Rightarrow> [] | Some cell \<Rightarrow> cell))
      then Buy else Sell)"
    by (simp add: toTradeType_def buyWords_def includes_str_sublist Let_def)
  have lower:
    "toLowerCase (ascii ''Limit BUY'') = ascii ''limit buy''"
    "toLowerCase [47588, 49688] = [47588, 49688]"
    by (simp_all add: toLowerCase_def lowerUnit_def ascii_def)
  have examples:
    "toTradeType (Some [47588, 49688]) = Buy"
    "toTradeType (Some (ascii ''BUY'')) = Buy"
    "toTradeType (Some (ascii ''Deposit'')) = Buy"
    "toTradeType (Some (ascii ''Limit BUY'')) = Buy"
    "toTradeType (Some (ascii ''BID'')) = Buy"
    "toTradeType (Some (ascii ''SELL'')) = Sell"
    "toTradeType (Some []) = Sell"
    "toTradeType None = Sell"
    "toTradeType (Some (ascii ''transfer'')) = Sell"
    by (simp_all add: toTradeType_def buyWords_def toLowerCase_def lowerUnit_def ascii_def)
  from general lower examples show ?thesis by blast
qed

section \<open>Evaluating the parser on examples\<close>

lemmas eval_defs =
  ascii_def isWhiteSpace_def trim_def toLowerCase_def lowerUnit_def csvLines_def parseCsvLine_scanLine
  columnsOf_def getColumnIndex_def dateCandidates_def typeCandidates_def amountCandidates_def
  priceCandidates_def totalCandidates_def getCell_def normalizeNumber_def parseFloat_def
  isSign_def isMinus_def isDigit_def digitsValue_def exponentPart_def toTradeType_def
  buyWords_def Let_def

lemmas state_defs =
  run_def initialState_def createEmptyTrade_def exampleEnv_def handleAddTrade_def
  handleDeleteTrade_def handleAmountChange_def handlePriceChange_def handleTradeChange_def
  Let_def

lemma parseFloat_examples:
  "parseFloat (ascii ''abc'') = NaN"
  "parseFloat (ascii ''-5'') = Fin (- 5)"
  by (simp_all add: eval_defs roundRange_mid)

lemma example_header_columns:
  "columnsOf (map toLowerCase (parseCsvLine (ascii ''Fill Total,Quantity,Side''))) =
     \<lparr>dateIdx = - 1, typeIdx = 2, amountIdx = 1, priceIdx = - 1, totalIdx = 0\<rparr>"
  by (simp add: eval_defs)

lemma example_header_lines:
  "csvLines (exampleHeaderCsv (ascii ''1000,0,buy'')) =
     [ascii ''Fill Total,Quantity,Side'', ascii ''1000,0,buy'']"
  "csvLines (exampleHeaderCsv (ascii ''1000,4,SELL'')) =
     [ascii ''Fill Total,Quantity,Side'', ascii ''1000,4,SELL'']"
  by (simp_all add: exampleHeaderCsv_def csvLines_def ascii_def trim_def isWhiteSpace_def)

lemma example_cells:
  "parseCsvLine (ascii ''1000,0,buy'') = [ascii ''1000'', ascii ''0'', ascii ''buy'']"
  "parseCsvLine (ascii ''1000,4,SELL'') = [ascii ''1000'', ascii ''4'', ascii ''SELL'']"
  by (simp_all add: parseCsvLine_scanLine ascii_def trim_def isWhiteSpace_def)

lemma example_numbers:
  "normalizeNumber (Some (ascii ''1000'')) = Fin 1000"
  "normalizeNumber (Some (ascii ''0'')) = Fin 0"
  "normalizeNumber (Some (ascii ''4'')) = Fin 4"
  "normalizeNumber None = NaN"
  by (simp_all add: eval_defs roundRange_mid roundRange_0)

lemma template_cells:
  "parseCsvLine (ascii ''2025-01-01,buy,1,500000'') =
     [ascii ''2025-01-01'', ascii ''buy'', ascii ''1'', ascii ''500000'']"
  by (simp add: parseCsvLine_scanLine ascii_def trim_def isWhiteSpace_def)

lemma template_numbers:
  "normalizeNumber (Some (ascii ''1'')) = Fin 1"
  "normalizeNumber (Some (ascii ''500000'')) = Fin 500000"
  by (simp_all add: eval_defs roundRange_mid)

lemma overflow_cells:
  "parseCsvLine (ascii ''1e308,1e-308,buy'') = [ascii ''1e308'', ascii ''1e-308'', ascii ''buy'']"
  "parseCsvLine (ascii ''-1000,4,SELL'') = [ascii ''-1000'', ascii ''4'', ascii ''SELL'']"
  by (simp_all add: parseCsvLine_scanLine ascii_def trim_def isWhiteSpace_def)

lemma overflow_numbers:
  "normalizeNumber (Some (ascii ''1e308'')) = Fin (10 ^ 308)"
  "normalizeNumber (Some (ascii ''1e-308'')) = Fin (1 / 10 ^ 308)"
  by (simp_all add: eval_defs roundRange_def overflowBound_def underflowBound_def)


section \<open>The template round trip\<close>

lemma no_lf_splitLines:
  "10 \<notin> set s \<Longrightarrow> splitLines s cur = [cur @ s]"
proof (induction s arbitrary: cur)
  case Nil
  show ?case by simp
next
  case (Cons c cs)
  then have "c \<noteq> 10" and "10 \<notin> set cs" by auto
  moreover from \<open>10 \<notin> set cs\<close> have "\<not> (cs \<noteq> [] \<and> hd cs = 10)"
    by (cases cs) auto
  ultimately show ?case using Cons.IH by simp
qed

lemma csvLines_templateCsv: "csvLines templateCsv = [templateCsv]"
proof -
  have "10 \<notin> set templateCsv" by (simp add: templateCsv_def ascii_def)
  then have "splitLines templateCsv [] = [templateCsv]" by (simp add: no_lf_splitLines)
  moreover have "trim templateCsv = templateCsv"
    by (rule trim_fixed) (simp add: templateCsv_def ascii_def isWhiteSpace_def)
  moreover have "templateCsv \<noteq> []" by (simp add: templateCsv_def)
  ultimately show ?thesis by (simp add: csvLines_def)
qed

text \<open>
  C2 on the code. The template that \<open>handleDownloadTemplate\<close> produces has no line feed,
  so it is one line: re-imported, it yields no trade at all, the list is left as it was
  and the message reports that no row could be read.
\<close>

theorem template_reimport_yields_nothing:
  "parseCsvToTrades env k templateCsv = [] \<and>
   trades (onload env templateCsv s) = trades s \<and>
   importMessage (onload env templateCsv s) = Some noRowsMessage"
  by (simp add: parseCsvToTrades_def csvLines_templateCsv onload_def)

text \<open>
  With line feeds in place of the backslash-n pairs the same three lines parse to the two
  trades that C2 expects, so the parser is not what breaks the round trip.
\<close>

lemma intended_lines:
  "csvLines intendedTemplateCsv =
     [ascii ''date,type,amount,price'', ascii ''2025-01-01,buy,1,500000'',
      ascii ''2025-01-02,sell,0.5,600000'']"
  by (simp add: intendedTemplateCsv_def csvLines_def ascii_def trim_def isWhiteSpace_def)

lemma intended_columns:
  "columnsOf (map toLowerCase (parseCsvLine (ascii ''date,type,amount,price''))) =
     \<lparr>dateIdx = 0, typeIdx = 1, amountIdx = 2, priceIdx = 3, totalIdx = - 1\<rparr>"
  by (simp add: eval_defs)

lemma intended_row1:
  "map_option (\<lambda>t. (type t, amount t, price t))
     (parseRow env \<lparr>dateIdx = 0, typeIdx = 1, amountIdx = 2, priceIdx = 3, totalIdx = - 1\<rparr> k
        (ascii ''2025-01-01,buy,1,500000'')) = Some (Buy, Fin 1, Fin 500000)"
  by (simp add: parseRow_def eval_defs roundRange_mid)

lemma intended_row2:
  "map_option (\<lambda>t. (type t, amount t, price t))
     (parseRow env \<lparr>dateIdx = 0, typeIdx = 1, amountIdx = 2, priceIdx = 3, totalIdx = - 1\<rparr> k
        (ascii ''2025-01-02,sell,0.5,600000'')) = Some (Sell, Fin (1 / 2), Fin 600000)"
  by (simp add: parseRow_def eval_defs roundRange_mid)

lemma intended_template_parses:
  "map (\<lambda>t. (type t, amount t, price t)) (parseCsvToTrades env k intendedTemplateCsv) =
     [(Buy, Fin 1, Fin 500000), (Sell, Fin (1 / 2), Fin 600000)]"
proof -
  let ?ix = "\<lparr>dateIdx = 0, typeIdx = 1, amountIdx = 2, priceIdx = 3, totalIdx = - 1\<rparr>"
  obtain t1 where t1: "parseRow env ?ix k (ascii ''2025-01-01,buy,1,500000'') = Some t1"
    and f1: "(type t1, amount t1, price t1) = (Buy, Fin 1, Fin 500000)"
    using intended_row1 [of env k] by auto
  obtain t2 where t2: "parseRow env ?ix (k + 1) (ascii ''2025-01-02,sell,0.5,600000'') = Some t2"
    and f2: "(type t2, amount t2, price t2) = (Sell, Fin (1 / 2), Fin 600000)"
    using intended_row2 [of env "k + 1"] by auto
  have "parseCsvToTrades env k intendedTemplateCsv = [t1, t2]"
    using t1 t2 by (simp add: parseCsvToTrades_def intended_lines intended_columns)
  with f1 f2 show ?thesis by simp
qed

lemma intended_amounts:
  "map amount (parseCsvToTrades env k intendedTemplateCsv) = [Fin 1, Fin (1 / 2)]"
proof -
  have "map amount (parseCsvToTrades env k intendedTemplateCsv) =
      map (\<lambda>x. fst (snd x))
        (map (\<lambda>t. (type t, amount t, price t)) (parseCsvToTrades env k intendedTemplateCsv))"
    by (simp add: comp_def)
  then show ?thesis by (simp only: intended_template_parses) simp
qed

section \<open>The empty quoted field\<close>

lemma empty_date_lines:
  "csvLines (templateHeaderCsv quotedEmptyDateRow) =
     [ascii ''date,type,amount,price'', quotedEmptyDateRow]"
  "csvLines (templateHeaderCsv emptyDateRow) = [ascii ''date,type,amount,price'', emptyDateRow]"
  by (simp_all add: templateHeaderCsv_def quotedEmptyDateRow_def emptyDateRow_def csvLines_def
      ascii_def trim_def isWhiteSpace_def)

lemma empty_date_cells:
  "parseCsvLine quotedEmptyDateRow = [[34], ascii ''buy'', ascii ''1'', ascii ''500'']"
  "parseCsvLine emptyDateRow = [[], ascii ''buy'', ascii ''1'', ascii ''500'']"
  by (simp_all add: quotedEmptyDateRow_def emptyDateRow_def parseCsvLine_scanLine ascii_def
      trim_def isWhiteSpace_def)

lemma empty_date_numbers:
  "normalizeNumber (Some (ascii ''500'')) = Fin 500"
  by (simp add: eval_defs roundRange_mid)

lemma empty_date_rows:
  "map_option date (parseRow exampleEnv priceColumns k quotedEmptyDateRow) = Some [34]"
  "map_option date (parseRow exampleEnv priceColumns k emptyDateRow) = Some (ascii ''2025-06-01'')"
proof -
  have d: "normalizeDate exampleEnv (Some [34]) = [34]"
    "normalizeDate exampleEnv (Some []) = ascii ''2025-06-01''"
    by (simp_all add: normalizeDate_def exampleEnv_def ascii_def)
  show "map_option date (parseRow exampleEnv priceColumns k quotedEmptyDateRow) = Some [34]"
    by (simp add: parseRow_def Let_def empty_date_cells priceColumns_def getCell_def
        template_numbers empty_date_numbers d)
  show "map_option date (parseRow exampleEnv priceColumns k emptyDateRow) =
      Some (ascii ''2025-06-01'')"
    by (simp add: parseRow_def Let_def empty_date_cells priceColumns_def getCell_def
        template_numbers empty_date_numbers d)
qed

text \<open>
  C3 on the code. The escaped-quote test of \<open>parseCsvLine\<close> does not look at
  \<open>insideQuotes\<close>: on the line made of two quotes, an empty quoted field, the scan is
  outside quotes and still emits a literal quote, where the tokenizer of the
  specification gives one empty field. In an import the row with the quoted empty date is
  stored with the one-character date \<open>"\<close>, while the same row with an unquoted empty
  date gets the date of the day.
\<close>

theorem empty_quoted_field_is_a_quote:
  "parseCsvLine [34, 34] = [[34]] \<and>
   spec_scanLine [34, 34] [] [] False = [[]] \<and>
   map date (parseCsvToTrades exampleEnv 0 (templateHeaderCsv quotedEmptyDateRow)) = [[34]] \<and>
   map date (parseCsvToTrades exampleEnv 0 (templateHeaderCsv emptyDateRow)) =
     [ascii ''2025-06-01'']"
proof -
  have a: "parseCsvLine [34, 34] = [[34]]" "spec_scanLine [34, 34] [] [] False = [[]]"
    by (simp_all add: parseCsvLine_scanLine trim_def isWhiteSpace_def)
  obtain t where t: "parseRow exampleEnv priceColumns 0 quotedEmptyDateRow = Some t"
      and dt: "date t = [34]"
    using empty_date_rows(1) [of 0] by auto
  obtain u where u: "parseRow exampleEnv priceColumns 0 emptyDateRow = Some u"
      and du: "date u = ascii ''2025-06-01''"
    using empty_date_rows(2) [of 0] by auto
  have c: "columnsOf (map toLowerCase (parseCsvLine (ascii ''date,type,amount,price''))) =
      priceColumns"
    by (simp add: intended_columns priceColumns_def)
  have "parseCsvToTrades exampleEnv 0 (templateHeaderCsv quotedEmptyDateRow) = [t]"
    using t by (simp add: parseCsvToTrades_def empty_date_lines c)
  moreover have "parseCsvToTrades exampleEnv 0 (templateHeaderCsv emptyDateRow) = [u]"
    using u by (simp add: parseCsvToTrades_def empty_date_lines c)
  ultimately show ?thesis using a dt du by simp
qed

section \<open>Rows and price resolution\<close>

lemma parseRow_Some:
  assumes "parseRow env ix k line = Some t"
  shows "amount t = normalizeNumber (getCell (parseCsvLine line) (amountIdx ix))"
    and "price t =
           resolvePrice (normalizeNumber (getCell (parseCsvLine line) (priceIdx ix)))
             (normalizeNumber (getCell (parseCsvLine line) (totalIdx ix)))
             (normalizeNumber (getCell (parseCsvLine line) (amountIdx ix)))"
    and "isFinite (amount t)" and "isFinite (price t)"
    and "id_t t = randomUUID env k"
    and "type t = toTradeType (getCell (parseCsvLine line) (typeIdx ix))"
    and "date t = normalizeDate env (getCell (parseCsvLine line) (dateIdx ix))"
  using assms
  by (auto simp: parseRow_def Let_def resolvePrice_def parseCsvLine_nonempty
      split: if_splits)

lemma parseRow_None_iff:
  "parseRow env ix k line = None \<longleftrightarrow>
     \<not> (isFinite (normalizeNumber (getCell (parseCsvLine line) (amountIdx ix))) \<and>
        isFinite (resolvePrice (normalizeNumber (getCell (parseCsvLine line) (priceIdx ix)))
             (normalizeNumber (getCell (parseCsvLine line) (totalIdx ix)))
             (normalizeNumber (getCell (parseCsvLine line) (amountIdx ix)))))"
  by (auto simp: parseRow_def Let_def resolvePrice_def parseCsvLine_nonempty
      split: if_splits)

lemma parseRow_counter:
  "parseRow env ix k line = map_option (\<lambda>t. t\<lparr>id_t := randomUUID env k\<rparr>) (parseRow env ix j line)"
  by (simp add: parseRow_def Let_def)

lemma parseRows_acc:
  "parseRows env ix ls k acc = acc @ parseRows env ix ls k []"
proof (induction ls arbitrary: k acc)
  case Nil
  show ?case by simp
next
  case (Cons l ls)
  show ?case
  proof (cases "parseRow env ix k l")
    case None
    then show ?thesis using Cons.IH [of k acc] by simp
  next
    case (Some t)
    then show ?thesis
      using Cons.IH [of "k + 1" "acc @ [t]"] Cons.IH [of "k + 1" "[t]"] by simp
  qed
qed

lemma parseRows_Cons:
  "parseRows env ix (l # ls) k [] =
     (case parseRow env ix k l of
        None \<Rightarrow> parseRows env ix ls k []
      | Some t \<Rightarrow> t # parseRows env ix ls (k + 1) [])"
proof (cases "parseRow env ix k l")
  case None
  then show ?thesis by simp
next
  case (Some t)
  then show ?thesis using parseRows_acc [of env ix ls "k + 1" "[t]"] by simp
qed

lemma parseRows_finite:
  "list_all (\<lambda>t. isFinite (amount t) \<and> isFinite (price t)) (parseRows env ix ls k [])"
proof (induction ls arbitrary: k)
  case Nil
  show ?case by simp
next
  case (Cons l ls)
  show ?case
    by (auto simp add: parseRows_Cons Cons.IH parseRow_Some(3,4) simp del: parseRows.simps
        split: option.splits)
qed

lemma parseRows_ids:
  "map id_t (parseRows env ix ls k []) =
     map (randomUUID env) [k ..< k + length (parseRows env ix ls k [])]"
proof (induction ls arbitrary: k)
  case Nil
  show ?case by simp
next
  case (Cons l ls)
  show ?case
  proof (cases "parseRow env ix k l")
    case None
    then show ?thesis using Cons.IH [of k] by (simp add: parseRows_Cons del: parseRows.simps)
  next
    case (Some t)
    then show ?thesis
      using Cons.IH [of "k + 1"]
      by (simp add: parseRows_Cons parseRow_Some(5) upt_conv_Cons del: parseRows.simps upt_Suc)
  qed
qed

text \<open>File order: apart from the identifiers, the rows are the data lines that resolve.\<close>

lemma parseRows_file_order:
  "map (\<lambda>t. t\<lparr>id_t := []\<rparr>) (parseRows env ix ls k []) =
     List.map_filter (\<lambda>l. map_option (\<lambda>t. t\<lparr>id_t := []\<rparr>) (parseRow env ix 0 l)) ls"
proof (induction ls arbitrary: k)
  case Nil
  show ?case by (simp add: List.map_filter_simps)
next
  case (Cons l ls)
  have c: "map_option (\<lambda>t. t\<lparr>id_t := []\<rparr>) (parseRow env ix k l) =
           map_option (\<lambda>t. t\<lparr>id_t := []\<rparr>) (parseRow env ix 0 l)"
    by (subst parseRow_counter [of env ix k l 0]) (simp add: option.map_comp comp_def)
  show ?case
  proof (cases "parseRow env ix k l")
    case None
    with c have "parseRow env ix 0 l = None" by simp
    with None show ?thesis
      using Cons.IH [of k] by (simp add: parseRows_Cons List.map_filter_simps del: parseRows.simps)
  next
    case (Some t)
    with c obtain t0 where t0: "parseRow env ix 0 l = Some t0" "t0\<lparr>id_t := []\<rparr> = t\<lparr>id_t := []\<rparr>"
      by (cases "parseRow env ix 0 l") auto
    with Some show ?thesis
      using Cons.IH [of "k + 1"]
      by (simp add: parseRows_Cons List.map_filter_simps del: parseRows.simps)
  qed
qed

lemma parseCsvToTrades_finite: "finiteTrades (parseCsvToTrades env k text)"
  by (simp add: parseCsvToTrades_def Let_def finiteTrades_def parseRows_finite)

lemma parseCsvToTrades_ids:
  "map id_t (parseCsvToTrades env k text) =
     map (randomUUID env) [k ..< k + length (parseCsvToTrades env k text)]"
  by (simp add: parseCsvToTrades_def Let_def parseRows_ids)

text \<open>
  C4. For every data row, with \<open>amount\<close>, \<open>price\<close> and \<open>total\<close> the numbers read from its
  cells: when the price cell is finite and > 0, the price of the row is that cell (the
  row is kept when its amount is finite); otherwise, when the total is finite and the
  amount is finite and > 0, the price is \<open>total / amount\<close> (the row is kept when the
  quotient is finite); otherwise the row is rejected. Without a price column a row whose
  quantity is 0 is rejected, as is the row \<open>1000,0,buy\<close> under the header
  \<open>Fill Total,Quantity,Side\<close>.
\<close>

theorem price_resolution:
  "(let cells = parseCsvLine line;
        amount' = normalizeNumber (getCell cells (amountIdx ix));
        price' = normalizeNumber (getCell cells (priceIdx ix));
        total' = normalizeNumber (getCell cells (totalIdx ix));
        row = parseRow env ix k line
    in (isFinite price' \<and> num_gt price' (Fin 0) \<longrightarrow>
          map_option price row = (if isFinite amount' then Some price' else None)) \<and>
       (\<not> (isFinite price' \<and> num_gt price' (Fin 0)) \<and>
        isFinite total' \<and> isFinite amount' \<and> num_gt amount' (Fin 0) \<longrightarrow>
          map_option price row =
            (if isFinite (num_div total' amount') then Some (num_div total' amount') else None)) \<and>
       (\<not> (isFinite price' \<and> num_gt price' (Fin 0)) \<and>
        \<not> (isFinite total' \<and> isFinite amount' \<and> num_gt amount' (Fin 0)) \<longrightarrow>
          row = None) \<and>
       (priceIdx ix = - 1 \<and> amount' = Fin 0 \<longrightarrow> row = None)) \<and>
   priceIdx (columnsOf (map toLowerCase (parseCsvLine (ascii ''Fill Total,Quantity,Side'')))) = - 1 \<and>
   parseCsvToTrades env k (exampleHeaderCsv (ascii ''1000,0,buy'')) = []"
proof -
  define cells where "cells = parseCsvLine line"
  define amount' where "amount' = normalizeNumber (getCell cells (amountIdx ix))"
  define price' where "price' = normalizeNumber (getCell cells (priceIdx ix))"
  define total' where "total' = normalizeNumber (getCell cells (totalIdx ix))"
  define row where "row = parseRow env ix k line"
  note defs = cells_def amount'_def price'_def total'_def row_def
  have some: "price t = resolvePrice price' total' amount'" if "row = Some t" for t
    using that parseRow_Some(2) [of env ix k line t] by (simp add: defs)
  have none: "row = None \<longleftrightarrow>
      \<not> (isFinite amount' \<and> isFinite (resolvePrice price' total' amount'))"
    by (simp add: defs parseRow_None_iff)
  have eq: "map_option price row =
      (if isFinite amount' \<and> isFinite (resolvePrice price' total' amount')
       then Some (resolvePrice price' total' amount') else None)"
    using some none by (cases row) auto
  have a: "map_option price row = (if isFinite amount' then Some price' else None)"
    if "isFinite price' \<and> num_gt price' (Fin 0)"
    using that by (simp add: eq resolvePrice_def)
  have b: "map_option price row =
      (if isFinite (num_div total' amount') then Some (num_div total' amount') else None)"
    if "\<not> (isFinite price' \<and> num_gt price' (Fin 0)) \<and>
        isFinite total' \<and> isFinite amount' \<and> num_gt amount' (Fin 0)"
    using that by (auto simp add: eq resolvePrice_def)
  have c: "row = None"
    if "\<not> (isFinite price' \<and> num_gt price' (Fin 0)) \<and>
        \<not> (isFinite total' \<and> isFinite amount' \<and> num_gt amount' (Fin 0))"
    using that by (auto simp add: none resolvePrice_def)
  have d: "row = None" if "priceIdx ix = - 1 \<and> amount' = Fin 0"
  proof -
    from that have "price' = NaN" by (simp add: price'_def getCell_def normalizeNumber_def)
    with that show ?thesis by (simp add: none resolvePrice_def)
  qed
  have e: "priceIdx (columnsOf (map toLowerCase (parseCsvLine (ascii ''Fill Total,Quantity,Side'')))) = - 1"
    by (simp add: example_header_columns)
  have "parseRow env \<lparr>dateIdx = - 1, typeIdx = 2, amountIdx = 1, priceIdx = - 1, totalIdx = 0\<rparr> k
          (ascii ''1000,0,buy'') = None"
    by (simp add: parseRow_None_iff example_cells getCell_def example_numbers resolvePrice_def)
  then have f: "parseCsvToTrades env k (exampleHeaderCsv (ascii ''1000,0,buy'')) = []"
    by (simp add: parseCsvToTrades_def example_header_lines example_header_columns)
  from a b c d have "(isFinite price' \<and> num_gt price' (Fin 0) \<longrightarrow>
          map_option price row = (if isFinite amount' then Some price' else None)) \<and>
       (\<not> (isFinite price' \<and> num_gt price' (Fin 0)) \<and>
        isFinite total' \<and> isFinite amount' \<and> num_gt amount' (Fin 0) \<longrightarrow>
          map_option price row =
            (if isFinite (num_div total' amount') then Some (num_div total' amount') else None)) \<and>
       (\<not> (isFinite price' \<and> num_gt price' (Fin 0)) \<and>
        \<not> (isFinite total' \<and> isFinite amount' \<and> num_gt amount' (Fin 0)) \<longrightarrow>
          row = None) \<and>
       (priceIdx ix = - 1 \<and> amount' = Fin 0 \<longrightarrow> row = None)"
    by blast
  then show ?thesis
    using e f unfolding defs Let_def by blast
qed

theorem price_resolution_witness:
  "map_option price (parseRow exampleEnv priceColumns 0 (ascii ''2025-01-01,buy,1,500000'')) =
     Some (Fin 500000) \<and>
   map_option price (parseRow exampleEnv totalColumns 0 (ascii ''1000,4,SELL'')) =
     Some (Fin 250) \<and>
   parseRow exampleEnv totalColumns 0 (ascii ''1000,0,buy'') = None"
proof -
  have a: "map_option price (parseRow exampleEnv priceColumns 0 (ascii ''2025-01-01,buy,1,500000'')) =
     Some (Fin 500000)"
    using price_resolution [where line = "ascii ''2025-01-01,buy,1,500000''"
        and ix = priceColumns and env = exampleEnv and k = 0]
    by (simp add: Let_def priceColumns_def template_cells getCell_def template_numbers)
  have b: "map_option price (parseRow exampleEnv totalColumns 0 (ascii ''1000,4,SELL'')) =
     Some (Fin 250)"
    using price_resolution [where line = "ascii ''1000,4,SELL''"
        and ix = totalColumns and env = exampleEnv and k = 0]
    by (simp add: Let_def totalColumns_def example_cells getCell_def example_numbers roundRange_mid)
  have c: "parseRow exampleEnv totalColumns 0 (ascii ''1000,0,buy'') = None"
    using price_resolution [where line = "ascii ''1000,0,buy''"
        and ix = totalColumns and env = exampleEnv and k = 0]
    by (simp add: Let_def totalColumns_def example_cells getCell_def example_numbers)
  from a b c show ?thesis by blast
qed

section \<open>Finite numbers are an invariant\<close>

lemma foldl_step_invariant:
  assumes "P s" and "\<And>s e. P s \<Longrightarrow> P (step env s e)"
  shows "P (foldl (step env) s events)"
  using assms(1) by (induction events arbitrary: s) (simp_all add: assms(2))

lemma finiteTrades_append [simp]:
  "finiteTrades (xs @ ys) = (finiteTrades xs \<and> finiteTrades ys)"
  by (simp add: finiteTrades_def)

lemma finiteTrades_createEmptyTrade [simp]: "finiteTrades [createEmptyTrade env k]"
  by (simp add: finiteTrades_def createEmptyTrade_def)

lemma finiteTrades_filter: "finiteTrades ts \<Longrightarrow> finiteTrades (filter P ts)"
  by (induction ts) (auto simp: finiteTrades_def)

lemma finiteTrades_map:
  assumes "finiteTrades ts"
    and "\<And>t. isFinite (amount t) \<and> isFinite (price t) \<Longrightarrow>
           isFinite (amount (f t)) \<and> isFinite (price (f t))"
  shows "finiteTrades (map f ts)"
  using assms(1) by (induction ts) (auto simp: finiteTrades_def assms(2))

lemma handleAmountChange_finite:
  "finiteTrades (trades s) \<Longrightarrow> finiteTrades (trades (handleAmountChange i v s))"
  unfolding handleAmountChange_def
  by (simp, rule finiteTrades_map) (auto simp: Let_def)

lemma handlePriceChange_finite:
  "finiteTrades (trades s) \<Longrightarrow> finiteTrades (trades (handlePriceChange i v s))"
  unfolding handlePriceChange_def
  by (simp, rule finiteTrades_map) (auto simp: Let_def)

lemma handleTradeChange_date_finite:
  "finiteTrades (trades s) \<Longrightarrow> finiteTrades (trades (handleTradeChange i (Field_date v) s))"
  unfolding handleTradeChange_def
  by (simp, rule finiteTrades_map) auto

lemma handleTradeChange_type_finite:
  "finiteTrades (trades s) \<Longrightarrow> finiteTrades (trades (handleTradeChange i (Field_type v) s))"
  unfolding handleTradeChange_def
  by (simp, rule finiteTrades_map) auto

lemma onload_finite:
  "finiteTrades (trades s) \<Longrightarrow> finiteTrades (trades (onload env content s))"
  by (simp add: onload_def Let_def parseCsvToTrades_finite)

lemma step_finite:
  "finiteTrades (trades s) \<Longrightarrow> finiteTrades (trades (step env s e))"
proof (cases e)
  case AddTrade
  assume "finiteTrades (trades s)"
  with AddTrade show ?thesis by (simp add: handleAddTrade_def)
next
  case (DeleteTrade i)
  assume "finiteTrades (trades s)"
  with DeleteTrade show ?thesis by (simp add: handleDeleteTrade_def finiteTrades_filter)
next
  case (AmountChange i v)
  assume "finiteTrades (trades s)"
  with AmountChange show ?thesis by (simp add: handleAmountChange_finite)
next
  case (PriceChange i v)
  assume "finiteTrades (trades s)"
  with PriceChange show ?thesis by (simp add: handlePriceChange_finite)
next
  case (DateChange i v)
  assume "finiteTrades (trades s)"
  with DateChange show ?thesis by (simp add: handleTradeChange_date_finite)
next
  case (TypeChange i v)
  assume "finiteTrades (trades s)"
  with TypeChange show ?thesis by (simp add: handleTradeChange_type_finite)
next
  case (FileSelect selected)
  assume "finiteTrades (trades s)"
  with FileSelect show ?thesis
    by (cases selected) (simp_all add: handleFileSelect_def onload_finite)
next
  case DownloadTemplate
  assume "finiteTrades (trades s)"
  with DownloadTemplate show ?thesis by simp
qed

lemma run_finite: "finiteTrades (trades (run env events))"
  unfolding run_def
  by (rule foldl_step_invariant [where P = "\<lambda>s. finiteTrades (trades s)"])
     (simp_all add: initialState_def step_finite)

lemma unparsed_amount_is_zero:
  assumes "\<not> isFinite (parseFloat typed)"
  shows "list_all (\<lambda>t. id_t t = i \<longrightarrow> amount t = Fin 0) (trades (handleAmountChange i typed s))"
proof -
  have "list_all (\<lambda>t. id_t t = i \<longrightarrow> amount t = Fin 0)
      (map (\<lambda>trade. if id_t trade \<noteq> i then trade
                  else trade\<lparr>amountInput := typed, amount := Fin 0\<rparr>) ts)"
    for ts by (induction ts) simp_all
  with assms show ?thesis unfolding handleAmountChange_def Let_def by (simp cong: if_cong)
qed

lemma unparsed_price_is_zero:
  assumes "\<not> isFinite (parseFloat typed)"
  shows "list_all (\<lambda>t. id_t t = i \<longrightarrow> price t = Fin 0) (trades (handlePriceChange i typed s))"
proof -
  have "list_all (\<lambda>t. id_t t = i \<longrightarrow> price t = Fin 0)
      (map (\<lambda>trade. if id_t trade \<noteq> i then trade
                  else trade\<lparr>priceInput := typed, price := Fin 0\<rparr>) ts)"
    for ts by (induction ts) simp_all
  with assms show ?thesis unfolding handlePriceChange_def Let_def by (simp cong: if_cong)
qed

text \<open>
  C6. Finite amounts and prices are an invariant: they hold in the initial state, every
  operation (add row, delete, amount, price, date and type edit, CSV import) preserves
  them, and so they hold after every sequence of operations. A manual edit whose text
  does not parse to a finite number stores 0 in the edited trade; every imported trade
  has a finite amount and price, and a row is dropped exactly when its amount or its
  resolved price is not finite.
\<close>

theorem stored_numbers_finite:
  "finiteTrades (trades (initialState env)) \<and>
   (finiteTrades (trades s) \<longrightarrow> finiteTrades (trades (step env s e))) \<and>
   finiteTrades (trades (run env events)) \<and>
   (\<not> isFinite (parseFloat typed) \<longrightarrow>
      list_all (\<lambda>t. id_t t = i \<longrightarrow> amount t = Fin 0) (trades (handleAmountChange i typed s)) \<and>
      list_all (\<lambda>t. id_t t = i \<longrightarrow> price t = Fin 0) (trades (handlePriceChange i typed s))) \<and>
   finiteTrades (parseCsvToTrades env k text) \<and>
   (parseRow env ix k line = None \<longleftrightarrow>
      \<not> (isFinite (normalizeNumber (getCell (parseCsvLine line) (amountIdx ix))) \<and>
         isFinite (resolvePrice (normalizeNumber (getCell (parseCsvLine line) (priceIdx ix)))
           (normalizeNumber (getCell (parseCsvLine line) (totalIdx ix)))
           (normalizeNumber (getCell (parseCsvLine line) (amountIdx ix))))))"
proof -
  have init: "finiteTrades (trades (initialState env))"
    by (simp add: initialState_def)
  have step: "finiteTrades (trades s) \<longrightarrow> finiteTrades (trades (step env s e))"
    by (simp add: step_finite)
  have run: "finiteTrades (trades (run env events))"
    by (rule run_finite)
  have edit: "\<not> isFinite (parseFloat typed) \<longrightarrow>
      list_all (\<lambda>t. id_t t = i \<longrightarrow> amount t = Fin 0) (trades (handleAmountChange i typed s)) \<and>
      list_all (\<lambda>t. id_t t = i \<longrightarrow> price t = Fin 0) (trades (handlePriceChange i typed s))"
    by (simp add: unparsed_amount_is_zero unparsed_price_is_zero)
  have csv: "finiteTrades (parseCsvToTrades env k text)"
    by (rule parseCsvToTrades_finite)
  have row: "parseRow env ix k line = None \<longleftrightarrow>
      \<not> (isFinite (normalizeNumber (getCell (parseCsvLine line) (amountIdx ix))) \<and>
         isFinite (resolvePrice (normalizeNumber (getCell (parseCsvLine line) (priceIdx ix)))
           (normalizeNumber (getCell (parseCsvLine line) (totalIdx ix)))
           (normalizeNumber (getCell (parseCsvLine line) (amountIdx ix)))))"
    by (rule parseRow_None_iff)
  show ?thesis
    apply (rule conjI, rule init)
    apply (rule conjI, rule step)
    apply (rule conjI, rule run)
    apply (rule conjI, rule edit)
    apply (rule conjI, rule csv)
    apply (rule row)
    done
qed

theorem stored_numbers_finite_witness:
  "finiteTrades (trades (initialState exampleEnv)) \<and>
   finiteTrades (trades (step exampleEnv (initialState exampleEnv) (AmountChange [0] (ascii ''abc'')))) \<and>
   \<not> isFinite (parseFloat (ascii ''abc'')) \<and>
   map amount (trades (handleAmountChange [0] (ascii ''abc'') (initialState exampleEnv))) = [Fin 0] \<and>
   parseRow exampleEnv totalColumns 0 (ascii ''1e308,1e-308,buy'') = None"
proof -
  let ?s = "initialState exampleEnv"
  note inst = stored_numbers_finite [where env = exampleEnv and s = ?s and i = "[0]"
      and e = "AmountChange [0] (ascii ''abc'')" and typed = "ascii ''abc''"
      and ix = totalColumns and k = 0 and line = "ascii ''1e308,1e-308,buy''"]
  from inst have a: "finiteTrades (trades ?s)" by blast
  with inst have b: "finiteTrades (trades (step exampleEnv ?s (AmountChange [0] (ascii ''abc''))))"
    by blast
  have c: "\<not> isFinite (parseFloat (ascii ''abc''))" by (simp add: parseFloat_examples)
  with inst have "list_all (\<lambda>t. id_t t = [0] \<longrightarrow> amount t = Fin 0)
      (trades (handleAmountChange [0] (ascii ''abc'') ?s))" by blast
  then have d: "map amount (trades (handleAmountChange [0] (ascii ''abc'') ?s)) = [Fin 0]"
    by (simp add: state_defs parseFloat_examples)
  have "\<not> isFinite (resolvePrice
      (normalizeNumber (getCell (parseCsvLine (ascii ''1e308,1e-308,buy'')) (priceIdx totalColumns)))
      (normalizeNumber (getCell (parseCsvLine (ascii ''1e308,1e-308,buy'')) (totalIdx totalColumns)))
      (normalizeNumber (getCell (parseCsvLine (ascii ''1e308,1e-308,buy'')) (amountIdx totalColumns))))"
    by (simp add: overflow_cells totalColumns_def getCell_def overflow_numbers example_numbers
        resolvePrice_def roundRange_def overflowBound_def underflowBound_def)
  with inst have e: "parseRow exampleEnv totalColumns 0 (ascii ''1e308,1e-308,buy'') = None"
    by blast
  from a b c d e show ?thesis by blast
qed

section \<open>The sign of stored numbers\<close>







lemma negative_amount_cells:
  "parseCsvLine (ascii ''2025-01-01,buy,-1,500000'') =
     [ascii ''2025-01-01'', ascii ''buy'', ascii ''-1'', ascii ''500000'']"
  by (simp add: parseCsvLine_scanLine ascii_def trim_def isWhiteSpace_def)

lemma negative_amount_number: "normalizeNumber (Some (ascii ''-1'')) = Fin (- 1)"
  by (simp add: eval_defs roundRange_mid)

text \<open>
  The two other channels: a typed negative price is stored, and so is a negative CSV
  amount beside a usable price cell.
\<close>

lemma negative_price_and_csv_amount_stored:
  "map price (trades (handlePriceChange [0] (ascii ''-5'') (initialState exampleEnv))) = [Fin (- 5)]"
  "map_option amount (parseRow exampleEnv priceColumns 0 (ascii ''2025-01-01,buy,-1,500000'')) =
     Some (Fin (- 1))"
  by (simp_all add: state_defs parseFloat_examples parseRow_def negative_amount_cells
      priceColumns_def getCell_def negative_amount_number template_numbers)

section \<open>Deleting never empties the list\<close>

text \<open>Identifiers stay pairwise different, so a delete removes at most one row.\<close>

lemma filter_distinct_length:
  "distinct (map f xs) \<Longrightarrow> length xs \<le> Suc (length (filter (\<lambda>x. f x \<noteq> a) xs))"
proof (induction xs)
  case Nil
  show ?case by simp
next
  case (Cons x xs)
  show ?case
  proof (cases "f x = a")
    case True
    with Cons.prems have "a \<notin> f ` set xs" by auto
    then have "filter (\<lambda>x. f x \<noteq> a) xs = xs"
      by (intro filter_True) auto
    with True show ?thesis by simp
  next
    case False
    with Cons show ?thesis by simp
  qed
qed

lemma freshIds_edit:
  assumes "freshIds env s" and "\<And>t. id_t (f t) = id_t t"
  shows "freshIds env (s\<lparr>trades := map f (trades s)\<rparr>)"
proof -
  have "id_t \<circ> f = id_t" using assms(2) by (simp add: fun_eq_iff)
  with assms(1) show ?thesis by (simp add: freshIds_def)
qed

lemma handleAmountChange_ids:
  "freshIds env s \<Longrightarrow> freshIds env (handleAmountChange i v s)"
  unfolding handleAmountChange_def by (rule freshIds_edit) (auto simp: Let_def)

lemma handlePriceChange_ids:
  "freshIds env s \<Longrightarrow> freshIds env (handlePriceChange i v s)"
  unfolding handlePriceChange_def by (rule freshIds_edit) (auto simp: Let_def)

lemma handleTradeChange_date_ids:
  "freshIds env s \<Longrightarrow> freshIds env (handleTradeChange i (Field_date v) s)"
  unfolding handleTradeChange_def by (rule freshIds_edit) auto

lemma handleTradeChange_type_ids:
  "freshIds env s \<Longrightarrow> freshIds env (handleTradeChange i (Field_type v) s)"
  unfolding handleTradeChange_def by (rule freshIds_edit) auto

lemma handleAddTrade_ids:
  assumes "inj (randomUUID env)" and "freshIds env s"
  shows "freshIds env (handleAddTrade env s)"
proof -
  have "randomUUID env (uuidCalls s) \<notin> randomUUID env ` {..< uuidCalls s}"
    by (simp add: inj_image_mem_iff [OF assms(1)])
  with assms(2) show ?thesis
    by (auto simp: freshIds_def handleAddTrade_def createEmptyTrade_def lessThan_Suc)
qed

lemma handleDeleteTrade_ids:
  assumes "freshIds env s"
  shows "freshIds env (handleDeleteTrade i s)"
proof -
  have "distinct (map id_t (filter (\<lambda>trade. id_t trade \<noteq> i) (trades s)))"
    using assms by (simp add: freshIds_def distinct_map_filter)
  moreover have "set (map id_t (filter (\<lambda>trade. id_t trade \<noteq> i) (trades s)))
      \<subseteq> randomUUID env ` {..< uuidCalls s}"
    using assms by (auto simp: freshIds_def)
  ultimately show ?thesis using assms by (simp add: freshIds_def handleDeleteTrade_def)
qed

lemma fresh_append:
  assumes f: "inj f"
    and old: "distinct (map g xs)" "g ` set xs \<subseteq> f ` {..< c}"
    and new: "map g ys = map f [c ..< c + n]"
  shows "distinct (map g (xs @ ys)) \<and> g ` set (xs @ ys) \<subseteq> f ` {..< c + n}"
proof -
  have ys: "g ` set ys = f ` {c ..< c + n}"
  proof -
    have "g ` set ys = set (map g ys)" by simp
    also have "\<dots> = f ` {c ..< c + n}" unfolding new by simp
    finally show ?thesis .
  qed
  have d: "distinct (map g ys)"
    unfolding new by (simp add: distinct_map inj_on_def inj_eq [OF f])
  have "{..< c} \<inter> {c ..< c + n} = {}" by auto
  then have "f ` {..< c} \<inter> f ` {c ..< c + n} = {}"
    by (simp add: image_Int [OF f, symmetric])
  with old(2) have disj: "g ` set xs \<inter> g ` set ys = {}"
    unfolding ys by blast
  have "f ` {..< c} \<subseteq> f ` {..< c + n}" by (intro image_mono) auto
  with old(2) have s1: "g ` set xs \<subseteq> f ` {..< c + n}" by (rule subset_trans)
  have s2: "g ` set ys \<subseteq> f ` {..< c + n}"
    unfolding ys by (intro image_mono) auto
  have "distinct (map g (xs @ ys))"
    using old(1) d disj by simp
  moreover have "g ` set (xs @ ys) \<subseteq> f ` {..< c + n}"
    using s1 s2 by (simp add: image_Un)
  ultimately show ?thesis ..
qed

lemma onload_ids:
  assumes "inj (randomUUID env)" and "freshIds env s"
  shows "freshIds env (onload env content s)"
proof (cases "parseCsvToTrades env (uuidCalls s) content = []")
  case True
  with assms(2) show ?thesis by (simp add: onload_def freshIds_def)
next
  case False
  from assms(2) have old: "distinct (map id_t (trades s))"
    "id_t ` set (trades s) \<subseteq> randomUUID env ` {..< uuidCalls s}"
    by (simp_all add: freshIds_def)
  note fresh_append [OF assms(1) old parseCsvToTrades_ids [of env "uuidCalls s" content]]
  with False show ?thesis by (simp add: onload_def freshIds_def Let_def image_Un)
qed

lemma step_ids:
  assumes "inj (randomUUID env)" and "freshIds env s"
  shows "freshIds env (step env s e)"
proof (cases e)
  case AddTrade
  with assms show ?thesis by (simp add: handleAddTrade_ids)
next
  case (DeleteTrade i)
  with assms show ?thesis by (simp add: handleDeleteTrade_ids)
next
  case (AmountChange i v)
  with assms show ?thesis by (simp add: handleAmountChange_ids)
next
  case (PriceChange i v)
  with assms show ?thesis by (simp add: handlePriceChange_ids)
next
  case (DateChange i v)
  with assms show ?thesis by (simp add: handleTradeChange_date_ids)
next
  case (TypeChange i v)
  with assms show ?thesis by (simp add: handleTradeChange_type_ids)
next
  case (FileSelect selected)
  with assms show ?thesis
    by (cases selected) (simp_all add: handleFileSelect_def onload_ids)
next
  case DownloadTemplate
  with assms show ?thesis by simp
qed

lemma step_nonempty:
  assumes "freshIds env s" and "trades s \<noteq> []"
  shows "trades (step env s e) \<noteq> []"
proof (cases e)
  case AddTrade
  then show ?thesis by (simp add: handleAddTrade_def)
next
  case (DeleteTrade i)
  show ?thesis
  proof (cases "length (trades s) = 1")
    case True
    with DeleteTrade assms(2) show ?thesis by (simp add: handleDeleteTrade_def)
  next
    case False
    moreover from assms(2) have "length (trades s) \<noteq> 0" by simp
    ultimately have "2 \<le> length (trades s)" by linarith
    moreover have "length (trades s) \<le> Suc (length (filter (\<lambda>t. id_t t \<noteq> i) (trades s)))"
      using assms(1) by (intro filter_distinct_length) (simp add: freshIds_def)
    ultimately have "1 \<le> length (filter (\<lambda>t. id_t t \<noteq> i) (trades s))" by linarith
    then have "filter (\<lambda>t. id_t t \<noteq> i) (trades s) \<noteq> []" by auto
    with DeleteTrade False show ?thesis by (simp add: handleDeleteTrade_def)
  qed
next
  case (AmountChange i v)
  with assms(2) show ?thesis by (simp add: handleAmountChange_def)
next
  case (PriceChange i v)
  with assms(2) show ?thesis by (simp add: handlePriceChange_def)
next
  case (DateChange i v)
  with assms(2) show ?thesis by (simp add: handleTradeChange_def)
next
  case (TypeChange i v)
  with assms(2) show ?thesis by (simp add: handleTradeChange_def)
next
  case (FileSelect selected)
  with assms(2) show ?thesis
    by (cases selected) (simp_all add: handleFileSelect_def onload_def Let_def)
next
  case DownloadTemplate
  with assms(2) show ?thesis by simp
qed

lemma run_nonempty:
  assumes "inj (randomUUID env)"
  shows "freshIds env (run env events) \<and> trades (run env events) \<noteq> []"
  unfolding run_def
proof (rule foldl_step_invariant [where P = "\<lambda>s. freshIds env s \<and> trades s \<noteq> []"])
  show "freshIds env (initialState env) \<and> trades (initialState env) \<noteq> []"
    by (simp add: freshIds_def initialState_def createEmptyTrade_def)
next
  fix s e
  assume "freshIds env s \<and> trades s \<noteq> []"
  then show "freshIds env (step env s e) \<and> trades (step env s e) \<noteq> []"
    using assms by (simp add: step_ids step_nonempty)
qed

text \<open>
  C8. Deleting in a list of exactly one trade returns the state unchanged. When the
  identifiers that \<open>randomUUID\<close> returns are pairwise different, the trade list has at
  least one row after every sequence of operations from the initial state.
\<close>

theorem delete_keeps_a_row:
  "(length (trades s) = 1 \<longrightarrow> handleDeleteTrade i s = s) \<and>
   (inj (randomUUID env) \<longrightarrow> 1 \<le> length (trades (run env events)))"
proof -
  have a: "handleDeleteTrade i s = s" if "length (trades s) = 1"
    using that by (simp add: handleDeleteTrade_def)
  have b: "1 \<le> length (trades (run env events))" if "inj (randomUUID env)"
  proof -
    from run_nonempty [OF that] have "trades (run env events) \<noteq> []" by simp
    then show ?thesis by (cases "trades (run env events)") simp_all
  qed
  from a b show ?thesis by blast
qed

theorem delete_keeps_a_row_witness:
  "inj (randomUUID exampleEnv) \<and>
   length (trades (initialState exampleEnv)) = 1 \<and>
   handleDeleteTrade [0] (initialState exampleEnv) = initialState exampleEnv \<and>
   1 \<le> length (trades (run exampleEnv [AddTrade, DeleteTrade [0], DeleteTrade [1], DeleteTrade [2]])) \<and>
   map id_t (trades (run exampleEnv [AddTrade, DeleteTrade [0], DeleteTrade [1], DeleteTrade [2]])) = [[1]]"
proof -
  let ?es = "[AddTrade, DeleteTrade [0], DeleteTrade [1], DeleteTrade [2]]"
  have i: "inj (randomUUID exampleEnv)" by (simp add: exampleEnv_def inj_def)
  have l: "length (trades (initialState exampleEnv)) = 1" by (simp add: initialState_def)
  from l delete_keeps_a_row [of "initialState exampleEnv" "[0]"]
  have d: "handleDeleteTrade [0] (initialState exampleEnv) = initialState exampleEnv" by blast
  from i delete_keeps_a_row [of _ _ exampleEnv ?es]
  have r: "1 \<le> length (trades (run exampleEnv ?es))" by blast
  have m: "map id_t (trades (run exampleEnv ?es)) = [[1]]"
    by (simp add: state_defs)
  from i l d r m show ?thesis by blast
qed

section \<open>CSV import\<close>





text \<open>
  C10. When an import resolves at least one row, the new trade list is the previous
  list followed by the imported trades: its first part is the previous list, unchanged
  and in order. The imported trades are, apart from their fresh identifiers, the data
  lines that resolve, in file order.
\<close>

theorem import_appends:
  "(parseCsvToTrades env (uuidCalls s) content \<noteq> [] \<longrightarrow>
      trades (onload env content s) = trades s @ parseCsvToTrades env (uuidCalls s) content \<and>
      take (length (trades s)) (trades (onload env content s)) = trades s) \<and>
   (2 \<le> length (csvLines text) \<longrightarrow>
      map (\<lambda>t. t\<lparr>id_t := []\<rparr>) (parseCsvToTrades env k text) =
        List.map_filter
          (\<lambda>line. map_option (\<lambda>t. t\<lparr>id_t := []\<rparr>)
             (parseRow env (columnsOf (map toLowerCase (parseCsvLine (csvLines text ! 0)))) 0 line))
          (drop 1 (csvLines text)))"
proof -
  have a: "trades (onload env content s) = trades s @ parseCsvToTrades env (uuidCalls s) content \<and>
      take (length (trades s)) (trades (onload env content s)) = trades s"
    if "parseCsvToTrades env (uuidCalls s) content \<noteq> []"
    using that by (simp add: onload_def Let_def)
  have b: "map (\<lambda>t. t\<lparr>id_t := []\<rparr>) (parseCsvToTrades env k text) =
        List.map_filter
          (\<lambda>line. map_option (\<lambda>t. t\<lparr>id_t := []\<rparr>)
             (parseRow env (columnsOf (map toLowerCase (parseCsvLine (csvLines text ! 0)))) 0 line))
          (drop 1 (csvLines text))"
    if "2 \<le> length (csvLines text)"
    using that by (simp add: parseCsvToTrades_def Let_def parseRows_file_order)
  from a b show ?thesis by blast
qed

theorem import_appends_witness:
  "parseCsvToTrades exampleEnv (uuidCalls (initialState exampleEnv)) intendedTemplateCsv \<noteq> [] \<and>
   2 \<le> length (csvLines intendedTemplateCsv) \<and>
   map amount (trades (onload exampleEnv intendedTemplateCsv (initialState exampleEnv))) =
     [Fin 0, Fin 1, Fin (1 / 2)]"
proof -
  let ?s = "initialState exampleEnv"
  let ?p = "parseCsvToTrades exampleEnv (uuidCalls ?s) intendedTemplateCsv"
  have m: "map (\<lambda>t. (type t, amount t, price t)) ?p =
      [(Buy, Fin 1, Fin 500000), (Sell, Fin (1 / 2), Fin 600000)]"
    by (rule intended_template_parses)
  then have ne: "?p \<noteq> []" by auto
  from ne import_appends [of exampleEnv ?s intendedTemplateCsv]
  have "trades (onload exampleEnv intendedTemplateCsv ?s) = trades ?s @ ?p" by blast
  then have "map amount (trades (onload exampleEnv intendedTemplateCsv ?s)) =
      map amount (trades ?s) @ map amount ?p" by simp
  then have "map amount (trades (onload exampleEnv intendedTemplateCsv ?s)) =
      [Fin 0, Fin 1, Fin (1 / 2)]"
    by (simp add: intended_amounts initialState_def createEmptyTrade_def)
  moreover have "2 \<le> length (csvLines intendedTemplateCsv)" by (simp add: intended_lines)
  ultimately show ?thesis using ne by blast
qed

end
